theory Spec2Isabelle
  imports Complex_Main "HOL-Library.List_Lexorder" "HOL-Library.AList"
begin

section \<open>Python values, text and errors\<close>

text \<open>
  A Python \<open>str\<close> is a sequence of Unicode code points, a \<open>bytes\<close> object a sequence of
  bytes. Text is modelled as a list of code points and bytes as a \<^typ>\<open>string\<close>
  (a list of 8-bit characters). \<open>S\<close> writes an ASCII literal of the source as text.
\<close>

type_synonym pystr = "nat list"

definition S :: "string \<Rightarrow> pystr" where
  "S cs = map of_char cs"

text \<open>
  The exceptions the formatter and the library calls it makes can raise. \<open>DanglingRef\<close> is
  not a Python exception: it marks a state no Python program reaches (a reference or an
  open handle without a target) and keeps every lookup of the model total.
\<close>

datatype error = NameError | AttributeError | KeyError | ValueError | TypeError
  | IndexError | OSError | UnicodeEncodeError | UnicodeDecodeError | DanglingRef

definition bind_err :: "error + 'a \<Rightarrow> ('a \<Rightarrow> error + 'b) \<Rightarrow> error + 'b" where
  "bind_err r f = (case r of Inl e \<Rightarrow> Inl e | Inr x \<Rightarrow> f x)"

text \<open>\<open>d[k]\<close> on a dictionary held as an association list.\<close>

definition lookup :: "('k \<times> 'v) list \<Rightarrow> 'k \<Rightarrow> error + 'v" where
  "lookup d k = (case map_of d k of None \<Rightarrow> Inl KeyError | Some v \<Rightarrow> Inr v)"

subsection \<open>UTF-8\<close>

text \<open>
  \<open>str.encode('utf-8')\<close> with the default strict error handler: one to four bytes per code
  point, and \<open>UnicodeEncodeError\<close> for a lone surrogate. No Python \<open>str\<close> holds a code point
  from \<open>0x110000\<close> on.
\<close>

definition utf8_encode_cp :: "nat \<Rightarrow> error + string" where
  "utf8_encode_cp c =
     (if c < 0x80 then Inr [char_of c]
      else if c < 0x800 then Inr [char_of (0xC0 + c div 64), char_of (0x80 + c mod 64)]
      else if 0xD800 \<le> c \<and> c < 0xE000 then Inl UnicodeEncodeError
      else if c < 0x10000 then
        Inr [char_of (0xE0 + c div 4096), char_of (0x80 + c div 64 mod 64),
             char_of (0x80 + c mod 64)]
      else if c < 0x110000 then
        Inr [char_of (0xF0 + c div 262144), char_of (0x80 + c div 4096 mod 64),
             char_of (0x80 + c div 64 mod 64), char_of (0x80 + c mod 64)]
      else Inl UnicodeEncodeError)"

fun utf8_encode :: "pystr \<Rightarrow> error + string" where
  "utf8_encode [] = Inr []"
| "utf8_encode (c # cs) =
     (case utf8_encode_cp c of
        Inl e \<Rightarrow> Inl e
      | Inr bs \<Rightarrow> (case utf8_encode cs of Inl e \<Rightarrow> Inl e | Inr r \<Rightarrow> Inr (bs @ r)))"

text \<open>
  \<open>bytes.decode()\<close>: strict UTF-8. A continuation byte is \<open>10xxxxxx\<close>; overlong forms,
  surrogates and values from \<open>0x110000\<close> on are rejected. \<open>utf8_decode_cp b0 bs\<close> reads the code
  point that starts with \<open>b0\<close> and returns it with the number of bytes of \<open>bs\<close> it used.
\<close>

definition cont :: "char \<Rightarrow> bool" where
  "cont b = (0x80 \<le> (of_char b :: nat) \<and> (of_char b :: nat) < 0xC0)"

definition cbits :: "char \<Rightarrow> nat" where
  "cbits b = of_char b mod 64"

definition decode2 :: "nat \<Rightarrow> string \<Rightarrow> error + nat \<times> nat" where
  "decode2 n0 bs =
     (case bs of
        b1 # _ \<Rightarrow>
          (let c = (n0 - 0xC0) * 64 + cbits b1 in
           if cont b1 \<and> 0x80 \<le> c then Inr (c, 1) else Inl UnicodeDecodeError)
      | _ \<Rightarrow> Inl UnicodeDecodeError)"

definition decode3 :: "nat \<Rightarrow> string \<Rightarrow> error + nat \<times> nat" where
  "decode3 n0 bs =
     (case bs of
        b1 # b2 # _ \<Rightarrow>
          (let c = (n0 - 0xE0) * 4096 + cbits b1 * 64 + cbits b2 in
           if cont b1 \<and> cont b2 \<and> 0x800 \<le> c \<and> \<not> (0xD800 \<le> c \<and> c < 0xE000)
           then Inr (c, 2) else Inl UnicodeDecodeError)
      | _ \<Rightarrow> Inl UnicodeDecodeError)"

definition decode4 :: "nat \<Rightarrow> string \<Rightarrow> error + nat \<times> nat" where
  "decode4 n0 bs =
     (case bs of
        b1 # b2 # b3 # _ \<Rightarrow>
          (let c = (n0 - 0xF0) * 262144 + cbits b1 * 4096 + cbits b2 * 64 + cbits b3 in
           if cont b1 \<and> cont b2 \<and> cont b3 \<and> 0x10000 \<le> c \<and> c < 0x110000
           then Inr (c, 3) else Inl UnicodeDecodeError)
      | _ \<Rightarrow> Inl UnicodeDecodeError)"

definition utf8_decode_cp :: "char \<Rightarrow> string \<Rightarrow> error + nat \<times> nat" where
  "utf8_decode_cp b0 bs =
     (let n0 = (of_char b0 :: nat) in
      if n0 < 0x80 then Inr (n0, 0)
      else if n0 < 0xC0 then Inl UnicodeDecodeError
      else if n0 < 0xE0 then decode2 n0 bs
      else if n0 < 0xF0 then decode3 n0 bs
      else if n0 < 0xF8 then decode4 n0 bs
      else Inl UnicodeDecodeError)"

function utf8_decode :: "string \<Rightarrow> error + pystr" where
  "utf8_decode [] = Inr []"
| "utf8_decode (b0 # bs) =
     (case utf8_decode_cp b0 bs of
        Inl e \<Rightarrow> Inl e
      | Inr (c, k) \<Rightarrow>
          (case utf8_decode (drop k bs) of Inl e \<Rightarrow> Inl e | Inr r \<Rightarrow> Inr (c # r)))"
  by pat_completeness auto
termination
  by (relation "measure length") auto

subsection \<open>Values, \<open>str()\<close> and the two module-level helpers\<close>

datatype pyval = PNone | PBool bool | PInt int | PStr pystr | PBytes string
  | PList "pyval list"

definition str_of_bool :: "bool \<Rightarrow> pystr" where
  "str_of_bool b = (if b then S ''True'' else S ''False'')"

fun digits :: "nat \<Rightarrow> pystr" where
  "digits n = (if n < 10 then [48 + n] else digits (n div 10) @ [48 + n mod 10])"

declare digits.simps [simp del]

definition str_of_int :: "int \<Rightarrow> pystr" where
  "str_of_int i = (if i < 0 then 45 # digits (nat (- i)) else digits (nat i))"

text \<open>
  Iterating a value (\<open>for s in s\<close>): a list yields its elements, a \<open>str\<close> its characters, a
  \<open>bytes\<close> object its bytes as integers; \<open>None\<close>, a bool and an int are not iterable.
\<close>

definition py_iter :: "pyval \<Rightarrow> error + pyval list" where
  "py_iter v =
     (case v of
        PList xs \<Rightarrow> Inr xs
      | PStr t \<Rightarrow> Inr (map (\<lambda>c. PStr [c]) t)
      | PBytes b \<Rightarrow> Inr (map (\<lambda>c. PInt (of_char c)) b)
      | _ \<Rightarrow> Inl TypeError)"

text \<open>\<open>x.encode('utf-8')\<close>: only a \<open>str\<close> has the method.\<close>

definition encode_item :: "pyval \<Rightarrow> error + pyval" where
  "encode_item x =
     (case x of
        PStr t \<Rightarrow> bind_err (utf8_encode t) (\<lambda>b. Inr (PBytes b))
      | _ \<Rightarrow> Inl AttributeError)"

fun encode_items :: "pyval list \<Rightarrow> error + pyval list" where
  "encode_items [] = Inr []"
| "encode_items (x # xs) =
     bind_err (encode_item x) (\<lambda>y. bind_err (encode_items xs) (\<lambda>ys. Inr (y # ys)))"

text \<open>
  \<open>_encode_to_utf8\<close>. The second test of the source, \<open>type(s) == np.ndarray or list\<close>, is the
  disjunction of a comparison and the class \<open>list\<close>, which is true: every value that is not
  a \<open>str\<close> takes the comprehension branch.
\<close>

definition encode_to_utf8 :: "pyval \<Rightarrow> error + pyval" where
  "encode_to_utf8 s =
     (case s of
        PStr t \<Rightarrow> bind_err (utf8_encode t) (\<lambda>b. Inr (PBytes b))
      | _ \<Rightarrow> bind_err (py_iter s) (\<lambda>xs. bind_err (encode_items xs) (\<lambda>ys. Inr (PList ys))))"

text \<open>\<open>x.decode()\<close>: only \<open>bytes\<close> has the method.\<close>

definition py_decode :: "pyval \<Rightarrow> error + pystr" where
  "py_decode v = (case v of PBytes b \<Rightarrow> utf8_decode b | _ \<Rightarrow> Inl AttributeError)"

fun decode_items :: "pyval list \<Rightarrow> error + pystr list" where
  "decode_items [] = Inr []"
| "decode_items (x # xs) =
     bind_err (py_decode x) (\<lambda>y. bind_err (decode_items xs) (\<lambda>ys. Inr (y # ys)))"

definition str_to_bool :: "pystr \<Rightarrow> error + bool" where
  "str_to_bool s =
     (if s = S ''True'' then Inr True
      else if s = S ''False'' then Inr False
      else Inl ValueError)"

section \<open>The container and the in-memory dataset\<close>

text \<open>
  A sample is a number or the not-a-number sentinel, the only distinction the formatter
  makes. Numbers are reals; the conversion of a sample in memory to the storage type of a
  table is the component \<open>to_float32\<close> of the state below.
\<close>

datatype cell = NaN | Val real

text \<open>
  An HDF5 dataset as \<open>write\<close> and \<open>read\<close> use it: a table of \<open>ncols\<close> columns (\<open>shape\<close> is
  \<open>(length rows, ncols)\<close>), the \<open>maxshape\<close> it was created with (\<open>None\<close> for an unlimited
  dimension) and its attributes.
\<close>

record dset =
  rows :: "cell list list"
  ncols :: nat
  maxshape :: "nat option \<times> nat option"
  attrs :: "(string \<times> pyval) list"

text \<open>
  A container file: the section \<open>'Data Arrays'\<close> with one dataset per array id, and the
  section \<open>'Meta-data'\<close> with one group of text attributes per instrument. \<open>None\<close> is a
  section the file does not have.
\<close>

record h5file =
  data_arrays :: "(pystr \<times> dset) list option"
  meta_data :: "(pystr \<times> (pystr \<times> pystr) list) list option"

text \<open>
  \<open>array.units\<close> is a unit string, or the one-element list \<open>['']\<close> that
  \<open>_create_dataarray_dset\<close> writes back into an array without units; \<open>str\<close> of that list
  is the four characters \<open>['']\<close> (39 is the apostrophe).
\<close>

datatype units_val = UStr pystr | UPlaceholder

definition len_units :: "units_val \<Rightarrow> nat" where
  "len_units u = (case u of UStr t \<Rightarrow> length t | UPlaceholder \<Rightarrow> 1)"

definition str_of_units :: "units_val \<Rightarrow> pystr" where
  "str_of_units u = (case u of UStr t \<Rightarrow> t | UPlaceholder \<Rightarrow> [91, 39, 39, 93])"

text \<open>
  A numpy array of any number of dimensions: its shape and its samples in row-major
  order. \<open>vec\<close> is the one-dimensional array of a list; an array is well formed when it
  has as many samples as its shape says.
\<close>

record ndarr =
  shape :: "nat list"
  elems :: "cell list"

definition vec :: "cell list \<Rightarrow> ndarr" where
  "vec xs = \<lparr>shape = [length xs], elems = xs\<rparr>"

definition wf_ndarr :: "ndarr \<Rightarrow> bool" where
  "wf_ndarr x = (length (elems x) = prod_list (shape x))"

text \<open>
  A \<open>DataArray\<close> object. \<open>set_arrays\<close> holds references (addresses of the object store),
  \<open>ndarray\<close> the payload, and \<open>sa_array_ids\<close> the attribute \<open>_sa_array_ids\<close> that only
  \<open>read\<close> assigns (\<open>None\<close>: never assigned).
\<close>

record data_array =
  array_id :: pystr
  name :: "pystr option"
  label :: "pystr option"
  units :: "units_val option"
  is_setpoint :: bool
  set_arrays :: "nat list"
  ndarray :: ndarr
  sa_array_ids :: "pystr list option"

text \<open>
  The dataset: its location, the path join of its io manager, and the dictionary \<open>arrays\<close>
  from array id to \<open>DataArray\<close> object, in insertion order.
\<close>

record data_set =
  location :: pystr
  io_join :: "pystr \<Rightarrow> pystr"
  arrays :: "(pystr \<times> nat) list"

text \<open>
  The formatter object. \<open>data_object\<close> is \<open>None\<close> or an open file, named by its path;
  \<open>arr_group\<close> is the handle of the section \<open>'Data Arrays'\<close> of the file at that path, and
  \<open>None\<close> while the attribute has never been assigned (\<open>__init__\<close> sets \<open>data_object\<close> only);
  \<open>station\<close> is never assigned by the class.
\<close>

record hdf5format =
  data_object :: "pystr option"
  arr_group :: "pystr option"
  filepath :: "pystr option"
  station :: "(pystr \<times> (pystr \<times> pystr option) list option) list option"

text \<open>
  The formatter, the file system and the object store, threaded through every call. The
  payloads in memory are float64 and the tables are float32, the type \<open>create_dataset\<close>
  gives a table when no \<open>dtype\<close> is passed: every sample assigned to a table is converted.
  The rounding is not fixed here; the conversion is the component \<open>to_float32\<close> of the
  state, which no call changes.
\<close>

record state =
  self :: hdf5format
  files :: "pystr \<Rightarrow> h5file option"
  heap :: "nat \<Rightarrow> data_array option"
  next_addr :: nat
  to_float32 :: "cell \<Rightarrow> cell"

definition andthen ::
  "error option \<times> state \<Rightarrow> (state \<Rightarrow> error option \<times> state) \<Rightarrow> error option \<times> state" where
  "andthen r f = (case r of (None, s) \<Rightarrow> f s | (Some e, s) \<Rightarrow> (Some e, s))"

definition deref :: "state \<Rightarrow> nat \<Rightarrow> error + data_array" where
  "deref s a = (case heap s a of None \<Rightarrow> Inl DanglingRef | Some x \<Rightarrow> Inr x)"

definition get_group :: "state \<Rightarrow> pystr \<Rightarrow> error + (pystr \<times> dset) list" where
  "get_group s g =
     (case files s g of
        None \<Rightarrow> Inl DanglingRef
      | Some f \<Rightarrow> (case data_arrays f of None \<Rightarrow> Inl DanglingRef | Some grp \<Rightarrow> Inr grp))"

definition put_group :: "pystr \<Rightarrow> (pystr \<times> dset) list \<Rightarrow> state \<Rightarrow> state" where
  "put_group g grp s =
     (case files s g of
        None \<Rightarrow> s
      | Some f \<Rightarrow> s\<lparr>files := (files s)(g \<mapsto> f\<lparr>data_arrays := Some grp\<rparr>)\<rparr>)"

definition put_dset :: "pystr \<Rightarrow> pystr \<Rightarrow> dset \<Rightarrow> state \<Rightarrow> state" where
  "put_dset g k d s =
     (case get_group s g of
        Inl _ \<Rightarrow> s
      | Inr grp \<Rightarrow> put_group g (AList.update k d grp) s)"

text \<open>The keys of a group come in increasing name order.\<close>

definition h5_keys :: "(pystr \<times> 'a) list \<Rightarrow> pystr list" where
  "h5_keys grp = sort (map fst grp)"

section \<open>Library operations\<close>

text \<open>
  \<open>len(x[~np.isnan(x)])\<close>: the boolean mask has the shape of \<open>x\<close> and selects a
  one-dimensional array of the samples of any position that are not NaN.
\<close>

definition new_dlen :: "ndarr \<Rightarrow> nat" where
  "new_dlen x = length (filter (\<lambda>c. c \<noteq> NaN) (elems x))"

text \<open>
  \<open>x[a:b]\<close> for non-negative bounds: the slice is taken along the first axis, clipped to
  its extent, and keeps whole items of that axis; an array without dimensions cannot be
  sliced (\<open>IndexError\<close>). The result is given by its samples in row-major order, which is
  all \<open>reshape\<close> looks at.
\<close>

definition py_slice :: "ndarr \<Rightarrow> nat \<Rightarrow> nat \<Rightarrow> error + cell list" where
  "py_slice x a b =
     (case shape x of
        [] \<Rightarrow> Inl IndexError
      | n # rest \<Rightarrow>
          Inr (take ((min b n - min a n) * prod_list rest)
                 (drop (min a n * prod_list rest) (elems x))))"

text \<open>
  \<open>a.reshape((r, c))\<close>: \<open>ValueError\<close> unless \<open>a\<close> has \<open>r * c\<close> samples, whatever its shape;
  the samples are laid out in row-major order.
\<close>

fun chunks :: "nat \<Rightarrow> nat \<Rightarrow> 'a list \<Rightarrow> 'a list list" where
  "chunks 0 c xs = []"
| "chunks (Suc r) c xs = take c xs # chunks r c (drop c xs)"

definition np_reshape :: "cell list \<Rightarrow> nat \<times> nat \<Rightarrow> error + cell list list" where
  "np_reshape xs shp =
     (if length xs = fst shp * snd shp then Inr (chunks (fst shp) (snd shp) xs)
      else Inl ValueError)"

text \<open>
  \<open>dset.resize((r, c))\<close>: refused beyond \<open>maxshape\<close>; rows and columns beyond the new shape
  are dropped, new cells hold the fill value, which is zero.
\<close>

definition fill :: cell where
  "fill = Val 0"

definition fits_max :: "nat \<Rightarrow> nat option \<Rightarrow> bool" where
  "fits_max n m = (case m of None \<Rightarrow> True | Some k \<Rightarrow> n \<le> k)"

definition resize_row :: "nat \<Rightarrow> cell list \<Rightarrow> cell list" where
  "resize_row c row = take c row @ replicate (c - length row) fill"

definition h5_resize :: "nat \<times> nat \<Rightarrow> dset \<Rightarrow> error + dset" where
  "h5_resize shp d =
     (if fits_max (fst shp) (fst (maxshape d)) \<and> fits_max (snd shp) (snd (maxshape d)) then
        Inr (d\<lparr>rows := map (resize_row (snd shp)) (take (fst shp) (rows d))
                     @ replicate (fst shp - length (rows d)) (replicate (snd shp) fill),
               ncols := snd shp\<rparr>)
      else Inl ValueError)"

text \<open>
  \<open>dset[a:b] = arr\<close> for a two-dimensional \<open>arr\<close>: the slice is clipped to the rows the
  dataset has; an empty selection returns at once; otherwise \<open>arr\<close> must have the shape of
  the selection, and its samples are stored converted by \<open>cast\<close> to the type of the table.
  (h5py also accepts an \<open>arr\<close> with extent one where the selection has more; \<open>write\<close>
  passes an array with as many rows as the table and as many columns, so that an extent
  of one that differs from the selection cannot occur.)
\<close>

definition h5_setitem ::
  "(cell \<Rightarrow> cell) \<Rightarrow> nat \<Rightarrow> nat \<Rightarrow> cell list list \<Rightarrow> dset \<Rightarrow> error + dset" where
  "h5_setitem cast a b arr d =
     (let n = length (rows d); start = min a n; stop = min b n; cnt = stop - start in
      if cnt * ncols d = 0 then Inr d
      else if length arr = cnt \<and> list_all (\<lambda>row. length row = ncols d) arr then
        Inr (d\<lparr>rows := take start (rows d) @ map (map cast) arr @ drop stop (rows d)\<rparr>)
      else Inl TypeError)"

text \<open>
  \<open>group.create_dataset(key, (0, c), maxshape=(None, c))\<close>: an empty table with a growable
  row dimension; refused when the group has the key. No \<open>dtype\<close> is passed, so the table is
  float32: what is assigned to it goes through \<open>to_float32\<close>.
\<close>

definition h5_create_dataset :: "pystr \<Rightarrow> pystr \<Rightarrow> nat \<Rightarrow> state \<Rightarrow> error option \<times> state" where
  "h5_create_dataset g key c s =
     (case get_group s g of
        Inl e \<Rightarrow> (Some e, s)
      | Inr grp \<Rightarrow>
          (if map_of grp key \<noteq> None then (Some ValueError, s)
           else (None, put_group g
                   (grp @ [(key, \<lparr>rows = [], ncols = c, maxshape = (None, Some c), attrs = []\<rparr>)])
                   s)))"

text \<open>\<open>group[key].attrs[a] = v\<close>.\<close>

definition set_attr :: "pystr \<Rightarrow> pystr \<Rightarrow> string \<Rightarrow> pyval \<Rightarrow> state \<Rightarrow> error option \<times> state" where
  "set_attr g key a v s =
     (case bind_err (get_group s g) (\<lambda>grp. lookup grp key) of
        Inl e \<Rightarrow> (Some e, s)
      | Inr d \<Rightarrow> (None, put_dset g key (d\<lparr>attrs := AList.update a v (attrs d)\<rparr>) s))"

section \<open>The formatter\<close>

subsection \<open>\<open>_create_file\<close> and \<open>_create_dataarray_dset\<close>\<close>

text \<open>
  \<open>h5py.File(filepath, 'a')\<close> opens the file and creates an empty one when there is none.
  Directories and access rights are not part of the state, so the call always succeeds;
  the handle it returns is the path.
\<close>

definition create_file :: "pystr \<Rightarrow> state \<Rightarrow> state" where
  "create_file fp s =
     (case files s fp of
        None \<Rightarrow> s\<lparr>files := (files s)(fp \<mapsto> \<lparr>data_arrays = None, meta_data = None\<rparr>)\<rparr>
      | Some _ \<Rightarrow> s)"

text \<open>\<open>dset.attrs[a] = _encode_to_utf8(str(v))\<close> for a value \<open>v\<close> whose \<open>str\<close> is \<open>t\<close>.\<close>

definition set_encoded_attr ::
  "pystr \<Rightarrow> pystr \<Rightarrow> string \<Rightarrow> pystr \<Rightarrow> state \<Rightarrow> error option \<times> state" where
  "set_encoded_attr g key a t s =
     (case encode_to_utf8 (PStr t) of
        Inl e \<Rightarrow> (Some e, s)
      | Inr v \<Rightarrow> set_attr g key a v s)"

fun encode_ids :: "state \<Rightarrow> nat list \<Rightarrow> error + pyval list" where
  "encode_ids s [] = Inr []"
| "encode_ids s (r # rs) =
     bind_err (deref s r) (\<lambda>x.
     bind_err (encode_to_utf8 (PStr (array_id x))) (\<lambda>b.
     bind_err (encode_ids s rs) (\<lambda>bs. Inr (b # bs))))"

definition create_dataarray_dset :: "nat \<Rightarrow> pystr \<Rightarrow> state \<Rightarrow> error option \<times> state" where
  "create_dataarray_dset a g s =
     (case deref s a of
        Inl e \<Rightarrow> (Some e, s)
      | Inr arr \<Rightarrow>
          (let lbl = (case label arr of Some l \<Rightarrow> l | None \<Rightarrow> array_id arr);
               nm = (case name arr of Some n \<Rightarrow> n | None \<Rightarrow> array_id arr);
               s1 = (if units arr = None
                     then s\<lparr>heap := (heap s)(a \<mapsto> arr\<lparr>units := Some UPlaceholder\<rparr>)\<rparr>
                     else s);
               u = (case units arr of None \<Rightarrow> UPlaceholder | Some v \<Rightarrow> v);
               key = array_id arr
           in andthen (h5_create_dataset g key (len_units u) s1) (\<lambda>s2.
              andthen (set_encoded_attr g key ''label'' lbl s2) (\<lambda>s3.
              andthen (set_encoded_attr g key ''name'' nm s3) (\<lambda>s4.
              andthen (set_encoded_attr g key ''units'' (str_of_units u) s4) (\<lambda>s5.
              andthen (set_encoded_attr g key ''is_setpoint'' (str_of_bool (is_setpoint arr)) s5)
                (\<lambda>s6.
                 if \<not> is_setpoint arr then
                   (case encode_ids s6 (set_arrays arr) of
                      Inl e \<Rightarrow> (Some e, s6)
                    | Inr ids \<Rightarrow> set_attr g key ''set_arrays'' (PList ids) s6)
                 else (None, s6))))))))"

subsection \<open>\<open>write\<close>\<close>

text \<open>\<open>os.path.split(location)[-1]\<close>: what follows the last slash (47).\<close>

definition basename :: "pystr \<Rightarrow> pystr" where
  "basename p = rev (takeWhile (\<lambda>c. c \<noteq> 47) (rev p))"

text \<open>
  The second half of the loop body: read the stored shape, count the samples that are not
  NaN, resize the table to that many rows, and assign the slice of the payload, reshaped
  to the whole new shape, to the rows from \<open>old_dlen\<close> on. The resize is stored before the
  slice and the reshape are tried.
\<close>

definition append_rows :: "data_set \<Rightarrow> pystr \<Rightarrow> pystr \<Rightarrow> state \<Rightarrow> error option \<times> state" where
  "append_rows ds aid g s =
     (case bind_err (get_group s g) (\<lambda>grp. lookup grp aid) of
        Inl e \<Rightarrow> (Some e, s)
      | Inr d \<Rightarrow>
          (case bind_err (lookup (arrays ds) aid) (deref s) of
             Inl e \<Rightarrow> (Some e, s)
           | Inr x \<Rightarrow>
               (let old_dlen = length (rows d);
                    new_len = new_dlen (ndarray x);
                    new_datasetshape = (new_len, ncols d)
                in case h5_resize new_datasetshape d of
                     Inl e \<Rightarrow> (Some e, s)
                   | Inr d1 \<Rightarrow>
                       (let s1 = put_dset g aid d1 s in
                        case bind_err (py_slice (ndarray x) old_dlen new_len)
                               (\<lambda>sl. np_reshape sl new_datasetshape) of
                          Inl e \<Rightarrow> (Some e, s1)
                        | Inr arr \<Rightarrow>
                            (case h5_setitem (to_float32 s1) old_dlen new_len arr d1 of
                               Inl e \<Rightarrow> (Some e, s1)
                             | Inr d2 \<Rightarrow> (None, put_dset g aid d2 s1))))))"

definition write_array :: "data_set \<Rightarrow> bool \<Rightarrow> pystr \<Rightarrow> state \<Rightarrow> error option \<times> state" where
  "write_array ds force_write aid s =
     (case arr_group (self s) of
        None \<Rightarrow> (Some AttributeError, s)
      | Some g \<Rightarrow>
          (case get_group s g of
             Inl e \<Rightarrow> (Some e, s)
           | Inr grp \<Rightarrow>
               andthen
                 (if map_of grp aid = None \<or> force_write then
                    (case lookup (arrays ds) aid of
                       Inl e \<Rightarrow> (Some e, s)
                     | Inr a \<Rightarrow> create_dataarray_dset a g s)
                  else (None, s))
                 (append_rows ds aid g)))"

fun write_arrays :: "data_set \<Rightarrow> bool \<Rightarrow> pystr list \<Rightarrow> state \<Rightarrow> error option \<times> state" where
  "write_arrays ds force_write [] s = (None, s)"
| "write_arrays ds force_write (aid # rest) s =
     andthen (write_array ds force_write aid s) (write_arrays ds force_write rest)"

text \<open>\<open>write\<close>; the name is a keyword of the proof language, hence the prefix.\<close>

definition hdf5_write :: "data_set \<Rightarrow> bool \<Rightarrow> state \<Rightarrow> error option \<times> state" where
  "hdf5_write ds force_write s =
     (let s1 =
        (if data_object (self s) = None \<or> force_write then
           (let fp = io_join ds (location ds @ S ''/'' @ basename (location ds) @ S ''.hdf5'');
                s0 = create_file fp (s\<lparr>self := (self s)\<lparr>filepath := Some fp\<rparr>\<rparr>)
            in s0\<lparr>self := (self s0)\<lparr>data_object := Some fp\<rparr>\<rparr>)
         else s)
      in case data_object (self s1) of
           None \<Rightarrow> (Some AttributeError, s1)
         | Some p \<Rightarrow>
             (case files s1 p of
                None \<Rightarrow> (Some DanglingRef, s1)
              | Some f \<Rightarrow>
                  (let s2 =
                     (if data_arrays f = None then
                        s1\<lparr>files := (files s1)(p \<mapsto> f\<lparr>data_arrays := Some []\<rparr>),
                           self := (self s1)\<lparr>arr_group := Some p\<rparr>\<rparr>
                      else s1)
                   in write_arrays ds force_write (map fst (arrays ds)) s2)))"

subsection \<open>\<open>read\<close>\<close>

text \<open>\<open>attrs[k].decode()\<close> when the attribute is there, \<open>None\<close> otherwise.\<close>

definition opt_attr :: "dset \<Rightarrow> string \<Rightarrow> error + pystr option" where
  "opt_attr d k =
     (case map_of (attrs d) k of
        None \<Rightarrow> Inr None
      | Some v \<Rightarrow> bind_err (py_decode v) (\<lambda>t. Inr (Some t)))"

text \<open>
  The metadata of one stored array, in the order the loop body reads it: label, name (the
  array id unless the attribute is there), units, \<open>is_setpoint\<close>, and the ids of
  \<open>set_arrays\<close> for an array that is not a setpoint.
\<close>

definition read_attrs ::
  "pystr \<Rightarrow> dset \<Rightarrow> error + (pystr option \<times> pystr \<times> pystr option \<times> bool \<times> pystr list)" where
  "read_attrs aid d =
     bind_err (opt_attr d ''label'') (\<lambda>lbl.
     bind_err (opt_attr d ''name'') (\<lambda>nm.
     bind_err (opt_attr d ''units'') (\<lambda>u.
     bind_err (bind_err (bind_err (lookup (attrs d) ''is_setpoint'') py_decode) str_to_bool)
       (\<lambda>sp.
     bind_err (if \<not> sp
               then bind_err (bind_err (lookup (attrs d) ''set_arrays'') py_iter) decode_items
               else Inr [])
       (\<lambda>sa. Inr (lbl, (case nm of None \<Rightarrow> aid | Some n \<Rightarrow> n), u, sp, sa))))))"

text \<open>
  \<open>dat_arr.value[:, 0]\<close>: the first column; \<open>IndexError\<close> for a table without columns. A
  cell that was never written holds the fill value.
\<close>

definition first_column :: "dset \<Rightarrow> error + cell list" where
  "first_column d =
     (if ncols d = 0 then Inl IndexError
      else Inr (map (\<lambda>row. case row of [] \<Rightarrow> fill | c # _ \<Rightarrow> c) (rows d)))"

text \<open>
  Modelled from the spec: the constructor of \<open>DataArray\<close> and \<open>DataSet.add_array\<close>, which
  are in modules outside the sources at hand. The constructor builds an array entry from
  the arguments \<open>read\<close> passes (\<open>parameter=None\<close>, \<open>set_arrays=()\<close>, the first column as preset
  one-dimensional payload); \<open>add_array\<close> adds the entry to the dataset under its array id.
\<close>

definition new_data_array ::
  "pystr \<Rightarrow> pystr \<Rightarrow> pystr option \<Rightarrow> pystr option \<Rightarrow> bool \<Rightarrow> cell list \<Rightarrow> data_array" where
  "new_data_array nm aid lbl u sp col =
     \<lparr>array_id = aid, name = Some nm, label = lbl, units = map_option UStr u,
      is_setpoint = sp, set_arrays = [], ndarray = vec col, sa_array_ids = None\<rparr>"

definition add_array :: "data_set \<Rightarrow> pystr \<Rightarrow> nat \<Rightarrow> data_set" where
  "add_array ds aid a = ds\<lparr>arrays := AList.update aid a (arrays ds)\<rparr>"

definition read_entry ::
  "data_set \<Rightarrow> pystr \<Rightarrow> dset \<Rightarrow> state \<Rightarrow> error option \<times> data_set \<times> state" where
  "read_entry ds aid d s =
     (case bind_err (read_attrs aid d) (\<lambda>m. bind_err (first_column d) (\<lambda>col. Inr (m, col))) of
        Inl e \<Rightarrow> (Some e, ds, s)
      | Inr ((lbl, nm, u, sp, sa), col) \<Rightarrow>
          (let a = next_addr s;
               s1 = s\<lparr>heap := (heap s)(a \<mapsto> new_data_array nm aid lbl u sp col),
                       next_addr := Suc a\<rparr>;
               ds1 = add_array ds aid a
           in case bind_err (lookup (arrays ds1) aid) (\<lambda>b. bind_err (deref s1 b) (\<lambda>y. Inr (b, y))) of
                Inl e \<Rightarrow> (Some e, ds1, s1)
              | Inr (b, y) \<Rightarrow>
                  (None, ds1, s1\<lparr>heap := (heap s1)(b \<mapsto> y\<lparr>sa_array_ids := Some sa\<rparr>)\<rparr>)))"

fun read_entries ::
  "(pystr \<times> dset) list \<Rightarrow> pystr list \<Rightarrow> data_set \<Rightarrow> state \<Rightarrow> error option \<times> data_set \<times> state"
  where
  "read_entries grp [] ds s = (None, ds, s)"
| "read_entries grp (aid # rest) ds s =
     (case lookup grp aid of
        Inl e \<Rightarrow> (Some e, ds, s)
      | Inr d \<Rightarrow>
          (case read_entry ds aid d s of
             (Some e, ds1, s1) \<Rightarrow> (Some e, ds1, s1)
           | (None, ds1, s1) \<Rightarrow> read_entries grp rest ds1 s1))"

text \<open>
  The second pass: for every array of the dataset, each id of \<open>_sa_array_ids\<close> is looked up
  in \<open>data_set.arrays\<close> and the reference found is appended to the array's \<open>set_arrays\<close>.
\<close>

fun resolve_ids :: "data_set \<Rightarrow> nat \<Rightarrow> pystr list \<Rightarrow> state \<Rightarrow> error option \<times> state" where
  "resolve_ids ds a [] s = (None, s)"
| "resolve_ids ds a (sa_id # rest) s =
     (case bind_err (deref s a) (\<lambda>x. bind_err (lookup (arrays ds) sa_id) (\<lambda>r. Inr (x, r))) of
        Inl e \<Rightarrow> (Some e, s)
      | Inr (x, r) \<Rightarrow>
          resolve_ids ds a rest
            (s\<lparr>heap := (heap s)(a \<mapsto> x\<lparr>set_arrays := set_arrays x @ [r]\<rparr>)\<rparr>))"

fun resolve_all :: "data_set \<Rightarrow> (pystr \<times> nat) list \<Rightarrow> state \<Rightarrow> error option \<times> state" where
  "resolve_all ds [] s = (None, s)"
| "resolve_all ds ((aid, a) # rest) s =
     (case deref s a of
        Inl e \<Rightarrow> (Some e, s)
      | Inr x \<Rightarrow>
          (case sa_array_ids x of
             None \<Rightarrow> (Some AttributeError, s)
           | Some ids \<Rightarrow> andthen (resolve_ids ds a ids s) (resolve_all ds rest)))"

definition read :: "data_set \<Rightarrow> state \<Rightarrow> error option \<times> data_set \<times> state" where
  "read ds s =
     (let filepath = location ds in
      case files s filepath of
        None \<Rightarrow> (Some OSError, ds, s)
      | Some f \<Rightarrow>
          (let s1 = s\<lparr>self := (self s)\<lparr>data_object := Some filepath\<rparr>\<rparr> in
           case data_arrays f of
             None \<Rightarrow> (Some KeyError, ds, s1)
           | Some grp \<Rightarrow>
               (case read_entries grp (h5_keys grp) ds s1 of
                  (Some e, ds1, s2) \<Rightarrow> (Some e, ds1, s2)
                | (None, ds1, s2) \<Rightarrow>
                    (case resolve_all ds1 (arrays ds1) s2 of (r, s3) \<Rightarrow> (r, ds1, s3)))))"

subsection \<open>\<open>save_instrument_snapshot\<close>\<close>

text \<open>
  The body names \<open>data_object\<close> and \<open>dict_to_ordered_tuples\<close> without \<open>self.\<close> and without a
  local assignment, so both are looked up among the names bound at module level, and the
  lookup of an unbound name raises \<open>NameError\<close>. A binding is an open container, a
  function that returns the items of a dictionary, or anything else. The module
  \<open>hdf5_format\<close> binds its five imports of modules, the two imported classes, its own class
  and its two functions.
\<close>

datatype gval = GFile pystr | GItems | GOther

definition hdf5_format_globals :: "string \<Rightarrow> gval option" where
  "hdf5_format_globals n =
     (if n \<in> set [''np'', ''h5py'', ''re'', ''math'', ''os'', ''DataArray'', ''Formatter'',
                   ''HDF5Format'', ''_encode_to_utf8'', ''str_to_bool'']
      then Some GOther else None)"

text \<open>
  Modelled from the spec: \<open>dict_to_ordered_tuples\<close>, which no module of the sources at
  hand defines. It returns the items of a dictionary sorted by name.
\<close>

definition dict_to_ordered_tuples :: "(pystr \<times> 'a) list \<Rightarrow> (pystr \<times> 'a) list" where
  "dict_to_ordered_tuples d = sort_key fst d"

text \<open>
  The inner loop: one attribute per parameter, the \<open>str\<close> of its \<open>'value'\<close> entry, or the
  empty string when the entry is missing (\<open>None\<close>).
\<close>

fun write_params :: "(pystr \<times> pystr option) list \<Rightarrow> (pystr \<times> pystr) list \<Rightarrow> (pystr \<times> pystr) list"
  where
  "write_params [] grp_attrs = grp_attrs"
| "write_params ((p_name, p) # rest) grp_attrs =
     write_params rest
       (AList.update p_name (case p of None \<Rightarrow> [] | Some val \<Rightarrow> val) grp_attrs)"

text \<open>
  The outer loop over the instruments of the station; an instrument is the dictionary
  under \<open>'parameters'\<close> of its snapshot, or \<open>None\<close> when the snapshot has no such key.
\<close>

fun snapshot_instruments ::
  "gval \<Rightarrow> pystr \<Rightarrow> (pystr \<times> (pystr \<times> pystr option) list option) list \<Rightarrow> state
     \<Rightarrow> error option \<times> state" where
  "snapshot_instruments sorter p [] s = (None, s)"
| "snapshot_instruments sorter p ((iname, ins) # rest) s =
     (case bind_err (case files s p of None \<Rightarrow> Inl DanglingRef | Some f \<Rightarrow> Inr f)
             (\<lambda>f. case meta_data f of None \<Rightarrow> Inl DanglingRef | Some md \<Rightarrow> Inr (f, md)) of
        Inl e \<Rightarrow> (Some e, s)
      | Inr (f, md) \<Rightarrow>
          (if map_of md iname \<noteq> None then (Some ValueError, s)
           else
             (let s1 = s\<lparr>files := (files s)(p \<mapsto> f\<lparr>meta_data := Some (md @ [(iname, [])])\<rparr>)\<rparr>
              in case ins of
                   None \<Rightarrow> (Some KeyError, s1)
                 | Some par_snap \<Rightarrow>
                     (if sorter \<noteq> GItems then (Some TypeError, s1)
                      else
                        snapshot_instruments sorter p rest
                          (s1\<lparr>files := (files s1)(p \<mapsto> f\<lparr>meta_data :=
                              Some (md @ [(iname,
                                write_params (dict_to_ordered_tuples par_snap) [])])\<rparr>)\<rparr>)))))"

text \<open>
  The method, given the bindings of the module. The argument \<open>snapshot\<close> is not used by the
  body, which reads \<open>self.station.instruments\<close> instead.
\<close>

definition save_instrument_snapshot ::
  "(string \<Rightarrow> gval option) \<Rightarrow> (pystr \<times> (pystr \<times> pystr option) list) list \<Rightarrow> state
     \<Rightarrow> error option \<times> state" where
  "save_instrument_snapshot globals snapshot s =
     (case globals ''data_object'' of
        None \<Rightarrow> (Some NameError, s)
      | Some (GFile p) \<Rightarrow>
          (case files s p of
             None \<Rightarrow> (Some DanglingRef, s)
           | Some f \<Rightarrow>
               (if meta_data f \<noteq> None then (Some ValueError, s)
                else
                  (let s1 = s\<lparr>files := (files s)(p \<mapsto> f\<lparr>meta_data := Some []\<rparr>)\<rparr> in
                   case globals ''dict_to_ordered_tuples'' of
                     None \<Rightarrow> (Some NameError, s1)
                   | Some sorter \<Rightarrow>
                       (case station (self s1) of
                          None \<Rightarrow> (Some AttributeError, s1)
                        | Some instruments \<Rightarrow>
                            (if sorter \<noteq> GItems then (Some TypeError, s1)
                             else snapshot_instruments sorter p
                                    (dict_to_ordered_tuples instruments) s1)))))
      | Some _ \<Rightarrow> (Some AttributeError, s))"

section \<open>Observations and invariants\<close>

text \<open>The dataset stored under key \<open>k\<close> of the section \<open>'Data Arrays'\<close> of the file at \<open>p\<close>.\<close>

definition stored :: "state \<Rightarrow> pystr \<Rightarrow> pystr \<Rightarrow> dset option" where
  "stored s p k = (case get_group s p of Inl _ \<Rightarrow> None | Inr grp \<Rightarrow> map_of grp k)"

text \<open>A table is rectangular: every row has \<open>ncols\<close> cells.\<close>

definition wf_dset :: "dset \<Rightarrow> bool" where
  "wf_dset d = list_all (\<lambda>row. length row = ncols d) (rows d)"

text \<open>
  What a call of \<open>write\<close> may do to a stored table when the in-memory array has \<open>n\<close>
  samples that are not NaN: the columns and \<open>maxshape\<close> stay, and the rows either stay or
  become \<open>n\<close> rows whose first \<open>min old n\<close> are the old ones.
\<close>

definition grown_to :: "nat \<Rightarrow> dset \<Rightarrow> dset \<Rightarrow> bool" where
  "grown_to n d d' =
     (ncols d' = ncols d \<and> maxshape d' = maxshape d \<and> wf_dset d' \<and>
      (rows d' = rows d \<or>
       (length (rows d') = n \<and>
        take (min (length (rows d)) n) (rows d') = take (min (length (rows d)) n) (rows d))))"

text \<open>The number of samples of the slice \<open>x[a:b]\<close> of an array with at least one dimension.\<close>

definition slice_size :: "ndarr \<Rightarrow> nat \<Rightarrow> nat \<Rightarrow> nat" where
  "slice_size x a b =
     (case shape x of [] \<Rightarrow> 0 | n # rest \<Rightarrow> (min b n - min a n) * prod_list rest)"

text \<open>The number of populated samples of the array the dataset holds under key \<open>k\<close>.\<close>

definition populated :: "data_set \<Rightarrow> state \<Rightarrow> pystr \<Rightarrow> nat" where
  "populated ds s k =
     (case bind_err (lookup (arrays ds) k) (deref s) of
        Inl _ \<Rightarrow> 0
      | Inr x \<Rightarrow> new_dlen (ndarray x))"

text \<open>
  A step leaves the formatter, the payload of every array object and every stored dataset
  other than the one under key \<open>key\<close> of the file at \<open>g\<close> as they were.
\<close>

definition untouched :: "pystr \<Rightarrow> pystr \<Rightarrow> state \<Rightarrow> state \<Rightarrow> bool" where
  "untouched g key s s' =
     (self s' = self s
      \<and> (\<forall>b. map_option ndarray (heap s' b) = map_option ndarray (heap s b))
      \<and> (\<forall>p k. (p, k) \<noteq> (g, key) \<longrightarrow> stored s' p k = stored s p k))"

text \<open>The table of a dataset, without its attributes.\<close>

definition table :: "dset \<Rightarrow> cell list list \<times> nat \<times> (nat option \<times> nat option)" where
  "table d = (rows d, ncols d, maxshape d)"

text \<open>
  What the steps of \<open>write\<close> keep: the payload of every array object, and every stored
  rectangular table up to \<open>grown_to\<close>.
\<close>

definition kept :: "data_set \<Rightarrow> state \<Rightarrow> state \<Rightarrow> bool" where
  "kept ds s s' =
     ((\<forall>b. map_option ndarray (heap s' b) = map_option ndarray (heap s b))
      \<and> (\<forall>p k d. stored s p k = Some d \<longrightarrow> wf_dset d \<longrightarrow>
            (\<exists>d'. stored s' p k = Some d' \<and> grown_to (populated ds s k) d d')))"

text \<open>
  The first part of \<open>write\<close>, up to the loop: it opens or creates the file and the section,
  and changes no stored dataset and no array object.
\<close>

definition write_setup :: "data_set \<Rightarrow> bool \<Rightarrow> state \<Rightarrow> state" where
  "write_setup ds force_write s =
     (if data_object (self s) = None \<or> force_write then
        (let fp = io_join ds (location ds @ S ''/'' @ basename (location ds) @ S ''.hdf5'');
             s0 = create_file fp (s\<lparr>self := (self s)\<lparr>filepath := Some fp\<rparr>\<rparr>)
         in s0\<lparr>self := (self s0)\<lparr>data_object := Some fp\<rparr>\<rparr>)
      else s)"

text \<open>The attribute \<open>k\<close> of a stored entry is absent, or a byte string of valid UTF-8.\<close>

definition decodes :: "dset \<Rightarrow> string \<Rightarrow> bool" where
  "decodes d k =
     (case map_of (attrs d) k of
        None \<Rightarrow> True
      | Some (PBytes b) \<Rightarrow> (case utf8_decode b of Inr _ \<Rightarrow> True | Inl _ \<Rightarrow> False)
      | Some _ \<Rightarrow> False)"

section \<open>The scenario of the specification\<close>

text \<open>
  A setpoint array \<open>x\<close> and an array \<open>y\<close> measured against it, five samples each of which
  three are populated, in a dataset at \<open>d/run\<close>; a formatter just constructed; no files.
\<close>

definition arr_x :: data_array where
  "arr_x = \<lparr>array_id = S ''x'', name = None, label = None, units = Some (UStr (S ''V'')),
            is_setpoint = True, set_arrays = [],
            ndarray = vec [Val 0, Val 1, Val 2, NaN, NaN], sa_array_ids = None\<rparr>"

definition arr_y :: data_array where
  "arr_y = \<lparr>array_id = S ''y'', name = None, label = None, units = Some (UStr (S ''V'')),
            is_setpoint = False, set_arrays = [0],
            ndarray = vec [Val 10, Val 11, Val 12, NaN, NaN], sa_array_ids = None\<rparr>"

definition ds0 :: data_set where
  "ds0 = \<lparr>location = S ''d/run'', io_join = (\<lambda>p. p), arrays = [(S ''x'', 0), (S ''y'', 1)]\<rparr>"

definition fresh :: hdf5format where
  "fresh = \<lparr>data_object = None, arr_group = None, filepath = None, station = None\<rparr>"

text \<open>
  The samples of the scenarios are NaN and small integers, which float32 represents
  exactly: on them the conversion changes nothing.
\<close>

definition exact :: "cell \<Rightarrow> cell" where
  "exact c = c"

text \<open>
  The object store with the one-dimensional payloads \<open>nx\<close> and \<open>ny\<close>, and the state before
  any call.
\<close>

definition mem :: "cell list \<Rightarrow> cell list \<Rightarrow> nat \<Rightarrow> data_array option" where
  "mem nx ny = [0 \<mapsto> arr_x\<lparr>ndarray := vec nx\<rparr>, 1 \<mapsto> arr_y\<lparr>ndarray := vec ny\<rparr>]"

definition start :: "cell list \<Rightarrow> cell list \<Rightarrow> state" where
  "start nx ny = \<lparr>self = fresh, files = Map.empty, heap = mem nx ny, next_addr = 2,
                  to_float32 = exact\<rparr>"

definition fp0 :: pystr where
  "fp0 = S ''d/run/run.hdf5''"

text \<open>The formatter and the container after the first \<open>write\<close>.\<close>

definition opened :: hdf5format where
  "opened = \<lparr>data_object = Some fp0, arr_group = Some fp0, filepath = Some fp0, station = None\<rparr>"

definition dset_x :: "cell list list \<Rightarrow> dset" where
  "dset_x rs = \<lparr>rows = rs, ncols = 1, maxshape = (None, Some 1),
                attrs = [(''label'', PBytes ''x''), (''name'', PBytes ''x''),
                         (''units'', PBytes ''V''), (''is_setpoint'', PBytes ''True'')]\<rparr>"

definition dset_y :: "cell list list \<Rightarrow> dset" where
  "dset_y rs = \<lparr>rows = rs, ncols = 1, maxshape = (None, Some 1),
                attrs = [(''label'', PBytes ''y''), (''name'', PBytes ''y''),
                         (''units'', PBytes ''V''), (''is_setpoint'', PBytes ''False''),
                         (''set_arrays'', PList [PBytes ''x''])]\<rparr>"

definition file_xy :: "cell list list \<Rightarrow> cell list list \<Rightarrow> h5file" where
  "file_xy rx ry = \<lparr>data_arrays = Some [(S ''x'', dset_x rx), (S ''y'', dset_y ry)],
                     meta_data = None\<rparr>"

text \<open>A state whose only file holds \<open>rx\<close> and \<open>ry\<close> as the rows of the two tables.\<close>

definition written :: "hdf5format \<Rightarrow> (nat \<Rightarrow> data_array option) \<Rightarrow> cell list list
    \<Rightarrow> cell list list \<Rightarrow> state" where
  "written f h rx ry = \<lparr>self = f, files = [fp0 \<mapsto> file_xy rx ry], heap = h, next_addr = 2,
                        to_float32 = exact\<rparr>"

text \<open>
  A dataset of one array \<open>w\<close> with payload \<open>x\<close>, whose unit descriptor \<open>abc\<close> has three
  elements, and the state in which the section \<open>'Data Arrays'\<close> holds \<open>grp\<close>.
\<close>

definition arr_w :: "ndarr \<Rightarrow> data_array" where
  "arr_w x = \<lparr>array_id = S ''w'', name = None, label = None, units = Some (UStr (S ''abc'')),
              is_setpoint = True, set_arrays = [], ndarray = x, sa_array_ids = None\<rparr>"

definition ds_w :: data_set where
  "ds_w = \<lparr>location = S ''d/run'', io_join = (\<lambda>p. p), arrays = [(S ''w'', 0)]\<rparr>"

definition dset_w :: "cell list list \<Rightarrow> dset" where
  "dset_w rs = \<lparr>rows = rs, ncols = 3, maxshape = (None, Some 3),
                attrs = [(''label'', PBytes ''w''), (''name'', PBytes ''w''),
                         (''units'', PBytes ''abc''), (''is_setpoint'', PBytes ''True'')]\<rparr>"

definition state_w :: "ndarr \<Rightarrow> (pystr \<times> dset) list \<Rightarrow> state" where
  "state_w x grp =
     \<lparr>self = opened, files = [fp0 \<mapsto> \<lparr>data_arrays = Some grp, meta_data = None\<rparr>],
      heap = [0 \<mapsto> arr_w x], next_addr = 1, to_float32 = exact\<rparr>"

text \<open>
  Two payloads for \<open>w\<close>: one dimension with two populated samples, and three rows of four
  columns of which the first row is populated.
\<close>

definition w_vec :: ndarr where
  "w_vec = vec [Val 1, Val 2, NaN]"

definition w_grid :: ndarr where
  "w_grid = \<lparr>shape = [3, 4],
             elems = [Val 1, Val 2, Val 3, Val 4, NaN, NaN, NaN, NaN, NaN, NaN, NaN, NaN]\<rparr>"


text \<open>
  A stored table of two rows with the attributes \<open>as\<close>, and an empty dataset whose location
  is the path of the container.
\<close>

definition entry :: "(string \<times> pyval) list \<Rightarrow> dset" where
  "entry as = \<lparr>rows = [[Val 1], [Val 2]], ncols = 1, maxshape = (None, Some 1), attrs = as\<rparr>"

definition ds_r :: data_set where
  "ds_r = \<lparr>location = fp0, io_join = (\<lambda>p. p), arrays = []\<rparr>"
section \<open>UTF-8: decoding inverts encoding\<close>

lemma of_char_char_of: "n < 256 \<Longrightarrow> (of_char (char_of (n::nat)) :: nat) = n"
  by simp

lemma mod64: "r < 64 \<Longrightarrow> (128 + r) mod 64 = (r::nat)"
proof -
  assume r: "r < 64"
  have "(64 * 2 + r) mod 64 = r mod 64" by (rule mod_mult_self4)
  then show ?thesis using r by simp
qed

lemma cont_bits:
  assumes "r < 64"
  shows "cont (char_of (0x80 + r))" and "cbits (char_of (0x80 + r)) = r"
proof -
  have a: "(of_char (char_of (0x80 + r)) :: nat) = 0x80 + r"
    using assms by (intro of_char_char_of) simp
  show "cont (char_of (0x80 + r))"
    unfolding cont_def a using assms by simp
  show "cbits (char_of (0x80 + r)) = r"
    unfolding cbits_def a using assms by (simp only: mod64)
qed

lemma decode_one: "c < 0x80 \<Longrightarrow> utf8_decode_cp (char_of c) rest = Inr (c, 0)"
  by (simp add: utf8_decode_cp_def of_char_char_of del: of_char_of)

lemma decode_two_digits:
  assumes "2 \<le> q" "q < 32" "r < 64"
  shows "utf8_decode_cp (char_of (0xC0 + q)) (char_of (0x80 + r) # rest) = Inr (q * 64 + r, 1)"
proof -
  have a: "(of_char (char_of (0xC0 + q)) :: nat) = 0xC0 + q"
    using assms by (intro of_char_char_of) simp
  have "0x80 \<le> q * 64 + r"
    using assms by simp
  then show ?thesis
    using assms
    by (simp add: utf8_decode_cp_def decode2_def a cont_bits Let_def del: of_char_of)
qed

lemma decode_three_digits:
  assumes "q < 16" "r1 < 64" "r2 < 64" "0x800 \<le> q * 4096 + r1 * 64 + r2"
    "\<not> (0xD800 \<le> q * 4096 + r1 * 64 + r2 \<and> q * 4096 + r1 * 64 + r2 < 0xE000)"
  shows "utf8_decode_cp (char_of (0xE0 + q)) (char_of (0x80 + r1) # char_of (0x80 + r2) # rest)
           = Inr (q * 4096 + r1 * 64 + r2, 2)"
proof -
  have a: "(of_char (char_of (0xE0 + q)) :: nat) = 0xE0 + q"
    using assms by (intro of_char_char_of) simp
  show ?thesis
    using assms
    by (simp add: utf8_decode_cp_def decode3_def a cont_bits Let_def del: of_char_of)
qed

lemma decode_four_digits:
  assumes "q < 8" "r1 < 64" "r2 < 64" "r3 < 64"
    "0x10000 \<le> q * 262144 + r1 * 4096 + r2 * 64 + r3"
    "q * 262144 + r1 * 4096 + r2 * 64 + r3 < 0x110000"
  shows "utf8_decode_cp (char_of (0xF0 + q))
           (char_of (0x80 + r1) # char_of (0x80 + r2) # char_of (0x80 + r3) # rest)
           = Inr (q * 262144 + r1 * 4096 + r2 * 64 + r3, 3)"
proof -
  have a: "(of_char (char_of (0xF0 + q)) :: nat) = 0xF0 + q"
    using assms by (intro of_char_char_of) simp
  show ?thesis
    using assms
    by (simp add: utf8_decode_cp_def decode4_def a cont_bits Let_def del: of_char_of)
qed

lemma base64_2: "(c::nat) div 64 * 64 + c mod 64 = c"
  by simp

lemma base64_3: "(c::nat) div 4096 * 4096 + c div 64 mod 64 * 64 + c mod 64 = c"
proof -
  define d where "d = c div 64"
  define a where "a = d div 64"
  define b where "b = d mod 64"
  have q: "c div 4096 = a"
    unfolding a_def d_def by (simp add: div_mult2_eq [symmetric])
  have "a * 64 + b = d"
    unfolding a_def b_def by simp
  then have "a * 4096 + b * 64 = d * 64"
    by (simp add: add_mult_distrib [symmetric])
  then have "a * 4096 + b * 64 + c mod 64 = d * 64 + c mod 64"
    by simp
  also have "\<dots> = c"
    unfolding d_def by simp
  finally show ?thesis
    unfolding q b_def [symmetric] d_def [symmetric] .
qed

lemma base64_4:
  "(c::nat) div 262144 * 262144 + c div 4096 mod 64 * 4096 + c div 64 mod 64 * 64 + c mod 64 = c"
proof -
  define d where "d = c div 4096"
  define a where "a = d div 64"
  define b where "b = d mod 64"
  define t where "t = c div 64 mod 64 * 64 + c mod 64"
  have q: "c div 262144 = a"
    unfolding a_def d_def by (simp add: div_mult2_eq [symmetric])
  have "a * 64 + b = d"
    unfolding a_def b_def by simp
  then have "a * 262144 + b * 4096 = d * 4096"
    by (simp add: add_mult_distrib [symmetric])
  then have "a * 262144 + b * 4096 + t = d * 4096 + t"
    by simp
  also have "\<dots> = c"
    unfolding d_def t_def using base64_3 [of c] by (simp only: add.assoc)
  finally have "a * 262144 + b * 4096 + (c div 64 mod 64 * 64 + c mod 64) = c"
    unfolding t_def .
  then show ?thesis
    unfolding q b_def [symmetric] d_def [symmetric] by (simp only: add.assoc)
qed

lemma lead2_hi: "(c::nat) < 0x800 \<Longrightarrow> c div 64 < 32"
  by (simp add: less_mult_imp_div_less)

lemma lead2_lo: "0x80 \<le> (c::nat) \<Longrightarrow> 2 \<le> c div 64"
  by (simp add: less_eq_div_iff_mult_less_eq)

lemma lead3_hi: "(c::nat) < 0x10000 \<Longrightarrow> c div 4096 < 16"
  by (simp add: less_mult_imp_div_less)

lemma lead4_hi: "(c::nat) < 0x110000 \<Longrightarrow> c div 262144 < 8"
  by (simp add: less_mult_imp_div_less)

lemma decode_two:
  assumes "\<not> c < 0x80" "c < 0x800"
  shows "utf8_decode_cp (char_of (0xC0 + c div 64)) (char_of (0x80 + c mod 64) # rest) = Inr (c, 1)"
proof -
  have "utf8_decode_cp (char_of (0xC0 + c div 64)) (char_of (0x80 + c mod 64) # rest)
          = Inr (c div 64 * 64 + c mod 64, 1)"
  proof (rule decode_two_digits)
    show "2 \<le> c div 64" using assms(1) by (intro lead2_lo) simp
    show "c div 64 < 32" using assms(2) by (rule lead2_hi)
    show "c mod 64 < 64" by simp
  qed
  then show ?thesis by (simp only: base64_2)
qed

lemma decode_three:
  assumes "\<not> c < 0x800" "c < 0x10000" "\<not> (0xD800 \<le> c \<and> c < 0xE000)"
  shows "utf8_decode_cp (char_of (0xE0 + c div 4096))
           (char_of (0x80 + c div 64 mod 64) # char_of (0x80 + c mod 64) # rest) = Inr (c, 2)"
proof -
  have "utf8_decode_cp (char_of (0xE0 + c div 4096))
           (char_of (0x80 + c div 64 mod 64) # char_of (0x80 + c mod 64) # rest)
          = Inr (c div 4096 * 4096 + c div 64 mod 64 * 64 + c mod 64, 2)"
  proof (rule decode_three_digits)
    show "c div 4096 < 16" using assms(2) by (rule lead3_hi)
    show "c div 64 mod 64 < 64" by simp
    show "c mod 64 < 64" by simp
    show "0x800 \<le> c div 4096 * 4096 + c div 64 mod 64 * 64 + c mod 64"
      unfolding base64_3 using assms(1) by simp
    show "\<not> (0xD800 \<le> c div 4096 * 4096 + c div 64 mod 64 * 64 + c mod 64
        \<and> c div 4096 * 4096 + c div 64 mod 64 * 64 + c mod 64 < 0xE000)"
      unfolding base64_3 using assms(3) .
  qed
  then show ?thesis by (simp only: base64_3)
qed

lemma decode_four:
  assumes "\<not> c < 0x10000" "c < 0x110000"
  shows "utf8_decode_cp (char_of (0xF0 + c div 262144))
           (char_of (0x80 + c div 4096 mod 64) # char_of (0x80 + c div 64 mod 64)
              # char_of (0x80 + c mod 64) # rest) = Inr (c, 3)"
proof -
  have "utf8_decode_cp (char_of (0xF0 + c div 262144))
           (char_of (0x80 + c div 4096 mod 64) # char_of (0x80 + c div 64 mod 64)
              # char_of (0x80 + c mod 64) # rest)
          = Inr (c div 262144 * 262144 + c div 4096 mod 64 * 4096 + c div 64 mod 64 * 64
                   + c mod 64, 3)"
  proof (rule decode_four_digits)
    show "c div 262144 < 8" using assms(2) by (rule lead4_hi)
    show "c div 4096 mod 64 < 64" by simp
    show "c div 64 mod 64 < 64" by simp
    show "c mod 64 < 64" by simp
    show "0x10000 \<le> c div 262144 * 262144 + c div 4096 mod 64 * 4096 + c div 64 mod 64 * 64
        + c mod 64"
      unfolding base64_4 using assms(1) by simp
    show "c div 262144 * 262144 + c div 4096 mod 64 * 4096 + c div 64 mod 64 * 64 + c mod 64
        < 0x110000"
      unfolding base64_4 using assms(2) .
  qed
  then show ?thesis by (simp only: base64_4)
qed

lemma decode_encoded_cp:
  assumes "utf8_encode_cp c = Inr bs"
  shows "utf8_decode (bs @ rest) =
           (case utf8_decode rest of Inl e \<Rightarrow> Inl e | Inr r \<Rightarrow> Inr (c # r))"
proof (cases "c < 0x80")
  case True
  with assms have "bs = [char_of c]" by (simp add: utf8_encode_cp_def)
  then show ?thesis using True by (simp add: decode_one)
next
  case n1: False
  show ?thesis
  proof (cases "c < 0x800")
    case True
    with assms n1 have "bs = [char_of (0xC0 + c div 64), char_of (0x80 + c mod 64)]"
      by (simp add: utf8_encode_cp_def)
    then show ?thesis using decode_two [OF n1 True] by simp
  next
    case n2: False
    show ?thesis
    proof (cases "0xD800 \<le> c \<and> c < 0xE000")
      case True
      with assms n1 n2 show ?thesis by (simp add: utf8_encode_cp_def)
    next
      case n3: False
      show ?thesis
      proof (cases "c < 0x10000")
        case True
        with assms n1 n2 n3 have "bs = [char_of (0xE0 + c div 4096),
            char_of (0x80 + c div 64 mod 64), char_of (0x80 + c mod 64)]"
          by (simp add: utf8_encode_cp_def)
        then show ?thesis using decode_three [OF n2 True n3] by simp
      next
        case n4: False
        show ?thesis
        proof (cases "c < 0x110000")
          case True
          with assms n1 n2 n3 n4 have "bs = [char_of (0xF0 + c div 262144),
              char_of (0x80 + c div 4096 mod 64), char_of (0x80 + c div 64 mod 64),
              char_of (0x80 + c mod 64)]"
            by (simp add: utf8_encode_cp_def)
          then show ?thesis using decode_four [OF n4 True] by simp
        next
          case False
          with assms n1 n2 n3 n4 show ?thesis by (simp add: utf8_encode_cp_def)
        qed
      qed
    qed
  qed
qed

lemma utf8_roundtrip: "utf8_encode s = Inr b \<Longrightarrow> utf8_decode b = Inr s"
proof (induction s arbitrary: b)
  case Nil
  then show ?case by simp
next
  case (Cons c cs)
  from Cons.prems obtain bs r where e: "utf8_encode_cp c = Inr bs" "utf8_encode cs = Inr r"
    and b: "b = bs @ r"
    by (auto split: sum.splits)
  from Cons.IH [OF e(2)] show ?case
    unfolding b by (simp add: decode_encoded_cp [OF e(1)])
qed

lemma utf8_encode_total:
  "\<forall>c \<in> set t. c < 0x110000 \<and> \<not> (0xD800 \<le> c \<and> c < 0xE000) \<Longrightarrow> \<exists>b. utf8_encode t = Inr b"
proof (induction t)
  case Nil
  then show ?case by simp
next
  case (Cons c cs)
  then obtain r where r: "utf8_encode cs = Inr r" by auto
  from Cons.prems have "c < 0x110000" "\<not> (0xD800 \<le> c \<and> c < 0xE000)" by auto
  then have "\<exists>bs. utf8_encode_cp c = Inr bs"
    unfolding utf8_encode_cp_def by simp
  with r show ?case by auto
qed

section \<open>The encoding helper\<close>

lemma encode_items_strs:
  "list_all2 (\<lambda>t b. utf8_encode t = Inr b) ts bs
   \<Longrightarrow> encode_items (map PStr ts) = Inr (map PBytes bs)"
  by (induction ts bs rule: list_all2_induct) (simp_all add: bind_err_def encode_item_def)

lemma decode_items_bytes:
  "list_all2 (\<lambda>t b. utf8_encode t = Inr b) ts bs
   \<Longrightarrow> decode_items (map PBytes bs) = Inr ts"
  by (induction ts bs rule: list_all2_induct)
     (simp_all add: bind_err_def py_decode_def utf8_roundtrip)

lemma digits_5: "digits 5 = [53]"
  by (simp add: digits.simps)

text \<open>
  C7 (as amended). The helper maps a text to its UTF-8 bytes and a list of texts to the
  list of their UTF-8 encodings, element by element; decoding the bytes gives the text
  back; a text without lone surrogates always encodes. The helper does not stringify: for
  \<open>None\<close>, an integer or a bool the result is no byte string, so in particular not the
  encoding of the stringified value.
\<close>

theorem encode_to_utf8_cases:
  "(utf8_encode t = Inr b \<longrightarrow>
      encode_to_utf8 (PStr t) = Inr (PBytes b) \<and> py_decode (PBytes b) = Inr t)
   \<and> (list_all2 (\<lambda>t b. utf8_encode t = Inr b) ts bs \<longrightarrow>
      encode_to_utf8 (PList (map PStr ts)) = Inr (PList (map PBytes bs))
      \<and> decode_items (map PBytes bs) = Inr ts)
   \<and> ((\<forall>c \<in> set t. c < 0x110000 \<and> \<not> (0xD800 \<le> c \<and> c < 0xE000)) \<longrightarrow>
      (\<exists>b. utf8_encode t = Inr b))
   \<and> encode_to_utf8 PNone \<noteq> Inr (PBytes r)
   \<and> encode_to_utf8 (PInt i) \<noteq> Inr (PBytes r)
   \<and> encode_to_utf8 (PBool f) \<noteq> Inr (PBytes r)"
proof -
  have a: "utf8_encode t = Inr b \<longrightarrow>
      encode_to_utf8 (PStr t) = Inr (PBytes b) \<and> py_decode (PBytes b) = Inr t"
    by (simp add: encode_to_utf8_def bind_err_def py_decode_def utf8_roundtrip)
  have b: "list_all2 (\<lambda>t b. utf8_encode t = Inr b) ts bs \<longrightarrow>
      encode_to_utf8 (PList (map PStr ts)) = Inr (PList (map PBytes bs))
      \<and> decode_items (map PBytes bs) = Inr ts"
    by (simp add: encode_to_utf8_def bind_err_def py_iter_def encode_items_strs
        decode_items_bytes)
  have c: "(\<forall>c \<in> set t. c < 0x110000 \<and> \<not> (0xD800 \<le> c \<and> c < 0xE000)) \<longrightarrow>
      (\<exists>b. utf8_encode t = Inr b)"
    using utf8_encode_total [of t] by blast
  have d: "encode_to_utf8 PNone \<noteq> Inr (PBytes r)" "encode_to_utf8 (PInt i) \<noteq> Inr (PBytes r)"
    "encode_to_utf8 (PBool f) \<noteq> Inr (PBytes r)"
    by (simp_all add: encode_to_utf8_def bind_err_def py_iter_def)
  from a b c d show ?thesis by blast
qed

theorem encode_to_utf8_cases_witness:
  "utf8_encode [109, 86] = Inr ''mV''
   \<and> encode_to_utf8 (PStr [109, 86]) = Inr (PBytes ''mV'')
   \<and> py_decode (PBytes ''mV'') = Inr [109, 86]
   \<and> list_all2 (\<lambda>t b. utf8_encode t = Inr b) [[120], [121]] [''x'', ''y'']
   \<and> encode_to_utf8 (PList (map PStr [[120], [121]])) = Inr (PList (map PBytes [''x'', ''y'']))
   \<and> decode_items (map PBytes [''x'', ''y'']) = Inr [[120], [121]]
   \<and> (\<exists>b. utf8_encode [109, 86] = Inr b)
   \<and> encode_to_utf8 (PInt 5) \<noteq> Inr (PBytes ''5'')"
proof -
  have e: "utf8_encode [109, 86] = Inr ''mV''"
    by (simp add: utf8_encode_cp_def char_of_eq_iff)
  have l: "list_all2 (\<lambda>t b. utf8_encode t = Inr b) [[120], [121]] [''x'', ''y'']"
    by (simp add: utf8_encode_cp_def char_of_eq_iff)
  have s: "\<forall>c \<in> set [109, 86]. c < (0x110000::nat) \<and> \<not> (0xD800 \<le> c \<and> c < 0xE000)"
    by simp
  show ?thesis
    using encode_to_utf8_cases [of "[109, 86]" "''mV''" "[[120], [121]]" "[''x'', ''y'']"
        "''5''" 5 True]
      e l s by blast
qed

theorem encode_to_utf8_int_counterexample:
  "utf8_encode (str_of_int 5) = Inr ''5''
   \<and> encode_to_utf8 (PInt 5) \<noteq> Inr (PBytes ''5'')
   \<and> encode_to_utf8 (PInt 5) = Inl TypeError"
  by (simp add: encode_to_utf8_def bind_err_def py_iter_def str_of_int_def digits_5
      utf8_encode_cp_def char_of_eq_iff)
section \<open>The state operations, seen through \<open>stored\<close>\<close>

lemma put_group_fields [simp]:
  "self (put_group g grp s) = self s"
  "heap (put_group g grp s) = heap s"
  "next_addr (put_group g grp s) = next_addr s"
  "to_float32 (put_group g grp s) = to_float32 s"
  by (simp_all add: put_group_def split: option.splits)

lemma get_group_put_group:
  "get_group s g = Inr grp0 \<Longrightarrow>
   get_group (put_group g grp s) p = (if p = g then Inr grp else get_group s p)"
  by (auto simp: get_group_def put_group_def split: option.splits)

lemma put_dset_fields [simp]:
  "self (put_dset g k d s) = self s"
  "heap (put_dset g k d s) = heap s"
  "next_addr (put_dset g k d s) = next_addr s"
  "to_float32 (put_dset g k d s) = to_float32 s"
  by (simp_all add: put_dset_def split: sum.splits)

lemma stored_put_dset:
  "get_group s g = Inr grp \<Longrightarrow>
   stored (put_dset g k d s) p k' = (if p = g \<and> k' = k then Some d else stored s p k')"
  by (simp add: stored_def put_dset_def get_group_put_group update_conv')

lemma stored_get_group:
  "get_group s g = Inr grp \<Longrightarrow> stored s g k = map_of grp k"
  by (simp add: stored_def)

lemma stored_Some_group:
  "stored s g k = Some d \<Longrightarrow> \<exists>grp. get_group s g = Inr grp \<and> map_of grp k = Some d"
  by (auto simp: stored_def split: sum.splits)

lemma map_of_snoc:
  "map_of grp key = None \<Longrightarrow>
   map_of (grp @ [(key, v)]) k = (if k = key then Some v else map_of grp k)"
  by (induction grp) auto

lemma h5_create_dataset_ok:
  assumes "h5_create_dataset g key c s = (None, s')"
  shows "self s' = self s" and "heap s' = heap s" and "stored s g key = None"
    and "stored s' p k =
           (if p = g \<and> k = key
            then Some \<lparr>rows = [], ncols = c, maxshape = (None, Some c), attrs = []\<rparr>
            else stored s p k)"
proof -
  from assms obtain grp where g: "get_group s g = Inr grp" and n: "map_of grp key = None"
    and s': "s' = put_group g
        (grp @ [(key, \<lparr>rows = [], ncols = c, maxshape = (None, Some c), attrs = []\<rparr>)]) s"
    by (auto simp: h5_create_dataset_def split: sum.splits if_splits)
  show "self s' = self s" "heap s' = heap s"
    by (simp_all add: s')
  show "stored s g key = None"
    by (simp add: stored_def g n)
  show "stored s' p k =
           (if p = g \<and> k = key
            then Some \<lparr>rows = [], ncols = c, maxshape = (None, Some c), attrs = []\<rparr>
            else stored s p k)"
    by (simp add: stored_def s' get_group_put_group [OF g] g map_of_snoc [OF n]
        del: map_of_append)
qed

lemma h5_create_dataset_err:
  "h5_create_dataset g key c s = (Some e, s') \<Longrightarrow> s' = s"
  by (auto simp: h5_create_dataset_def split: sum.splits if_splits)

lemma set_attr_ok:
  assumes "set_attr g key a v s = (None, s')"
  shows "self s' = self s" and "heap s' = heap s"
    and "\<exists>d. stored s g key = Some d \<and>
           (\<forall>p k. stored s' p k =
              (if p = g \<and> k = key then Some (d\<lparr>attrs := AList.update a v (attrs d)\<rparr>)
               else stored s p k))"
proof -
  from assms obtain grp d where g: "get_group s g = Inr grp" and d: "map_of grp key = Some d"
    and s': "s' = put_dset g key (d\<lparr>attrs := AList.update a v (attrs d)\<rparr>) s"
    by (auto simp: set_attr_def bind_err_def lookup_def split: sum.splits option.splits)
  show "self s' = self s" "heap s' = heap s"
    by (simp_all add: s')
  have "stored s g key = Some d"
    by (simp add: stored_def g d)
  then show "\<exists>d. stored s g key = Some d \<and>
           (\<forall>p k. stored s' p k =
              (if p = g \<and> k = key then Some (d\<lparr>attrs := AList.update a v (attrs d)\<rparr>)
               else stored s p k))"
    by (simp add: s' stored_put_dset [OF g])
qed

lemma set_attr_err:
  "set_attr g key a v s = (Some e, s') \<Longrightarrow> s' = s"
  by (auto simp: set_attr_def split: sum.splits)


lemma andthen_cases:
  "andthen m f = (r, s') \<Longrightarrow>
   (\<exists>e. m = (Some e, s') \<and> r = Some e) \<or> (\<exists>s1. m = (None, s1) \<and> f s1 = (r, s'))"
  by (cases m) (auto simp: andthen_def split: option.splits)

lemma untouched_refl [simp]: "untouched g key s s"
  by (simp add: untouched_def)

lemma untouched_trans:
  "untouched g key s s1 \<Longrightarrow> untouched g key s1 s2 \<Longrightarrow> untouched g key s s2"
  by (simp add: untouched_def)

lemma h5_create_dataset_untouched:
  "h5_create_dataset g key c s = (r, s') \<Longrightarrow> untouched g key s s'"
proof (cases r)
  case None
  assume "h5_create_dataset g key c s = (r, s')"
  with None have ok: "h5_create_dataset g key c s = (None, s')" by simp
  show ?thesis
    unfolding untouched_def
    using h5_create_dataset_ok(1,2) [OF ok] h5_create_dataset_ok(4) [OF ok] by auto
next
  case (Some e)
  assume "h5_create_dataset g key c s = (r, s')"
  with Some have "s' = s" by (simp add: h5_create_dataset_err)
  then show ?thesis by simp
qed

lemma set_attr_untouched:
  "set_attr g key a v s = (r, s') \<Longrightarrow> untouched g key s s'"
proof (cases r)
  case None
  assume "set_attr g key a v s = (r, s')"
  with None have ok: "set_attr g key a v s = (None, s')" by simp
  show ?thesis
    unfolding untouched_def
    using set_attr_ok(1,2) [OF ok] set_attr_ok(3) [OF ok] by auto
next
  case (Some e)
  assume "set_attr g key a v s = (r, s')"
  with Some have "s' = s" by (simp add: set_attr_err)
  then show ?thesis by simp
qed

lemma set_attr_table:
  assumes "set_attr g key a v s = (r, s')" and "stored s g key = Some d"
  shows "\<exists>d'. stored s' g key = Some d' \<and> table d' = table d"
proof (cases r)
  case None
  with assms(1) have ok: "set_attr g key a v s = (None, s')" by simp
  from set_attr_ok(3) [OF ok] assms(2) show ?thesis
    by (auto simp: table_def)
next
  case (Some e)
  with assms(1) have "s' = s" by (simp add: set_attr_err)
  with assms(2) show ?thesis by simp
qed

lemma set_encoded_attr_untouched:
  "set_encoded_attr g key a t s = (r, s') \<Longrightarrow> untouched g key s s'"
  by (auto simp: set_encoded_attr_def split: sum.splits dest: set_attr_untouched)

lemma set_encoded_attr_table:
  "set_encoded_attr g key a t s = (r, s') \<Longrightarrow> stored s g key = Some d
   \<Longrightarrow> \<exists>d'. stored s' g key = Some d' \<and> table d' = table d"
  by (auto simp: set_encoded_attr_def split: sum.splits dest: set_attr_table)


lemma stored_heap_update [simp]: "stored (s\<lparr>heap := h\<rparr>) p k = stored s p k"
  by (simp add: stored_def get_group_def)

lemma andthen_rel:
  assumes "andthen m f = (r, s')"
    and "\<And>r1 s1. m = (r1, s1) \<Longrightarrow> P s1"
    and "\<And>s1. P s1 \<Longrightarrow> f s1 = (r, s') \<Longrightarrow> P s'"
  shows "P s'"
  using andthen_cases [OF assms(1)] assms(2,3) by blast

text \<open>
  After the dataset has been created, every later step of \<open>_create_dataarray_dset\<close> only
  sets attributes of it.
\<close>

lemma create_attrs_steps:
  assumes inv: "untouched g key s0 s2" "\<exists>d. stored s2 g key = Some d \<and> table d = T"
    and run: "andthen (set_encoded_attr g key ''label'' lbl s2) (\<lambda>s3.
              andthen (set_encoded_attr g key ''name'' nm s3) (\<lambda>s4.
              andthen (set_encoded_attr g key ''units'' ut s4) (\<lambda>s5.
              andthen (set_encoded_attr g key ''is_setpoint'' sp s5)
                (\<lambda>s6.
                 if c then
                   (case encode_ids s6 refs of
                      Inl e \<Rightarrow> (Some e, s6)
                    | Inr ids \<Rightarrow> set_attr g key ''set_arrays'' (PList ids) s6)
                 else (None, s6))))) = (r, s')"
  shows "untouched g key s0 s' \<and> (\<exists>d. stored s' g key = Some d \<and> table d = T)"
proof -
  let ?P = "\<lambda>s. untouched g key s0 s \<and> (\<exists>d. stored s g key = Some d \<and> table d = T)"
  have step: "\<And>a t s r1 s1. ?P s \<Longrightarrow> set_encoded_attr g key a t s = (r1, s1) \<Longrightarrow> ?P s1"
    using set_encoded_attr_untouched set_encoded_attr_table untouched_trans by metis
  have last: "\<And>s6. ?P s6 \<Longrightarrow>
      (if c then
         (case encode_ids s6 refs of
            Inl e \<Rightarrow> (Some e, s6)
          | Inr ids \<Rightarrow> set_attr g key ''set_arrays'' (PList ids) s6)
       else (None, s6)) = (r, s') \<Longrightarrow> ?P s'"
  proof -
    fix s6 assume p: "?P s6"
    assume e: "(if c then
         (case encode_ids s6 refs of
            Inl e \<Rightarrow> (Some e, s6)
          | Inr ids \<Rightarrow> set_attr g key ''set_arrays'' (PList ids) s6)
       else (None, s6)) = (r, s')"
    then consider "s' = s6" | ids where "set_attr g key ''set_arrays'' (PList ids) s6 = (r, s')"
      by (auto split: if_splits sum.splits)
    then show "?P s'"
    proof cases
      case 1
      with p show ?thesis by simp
    next
      case 2
      from p set_attr_untouched [OF 2] set_attr_table [OF 2] untouched_trans
      show ?thesis by metis
    qed
  qed
  have p2: "?P s2" using inv by simp
  show ?thesis
    apply (rule andthen_rel [OF run, where P = ?P])
     apply (erule step [OF p2])
    apply (erule andthen_rel [where P = ?P])
     apply (erule (1) step)
    apply (erule andthen_rel [where P = ?P])
     apply (erule (1) step)
    apply (erule andthen_rel [where P = ?P])
     apply (erule (1) step)
    apply (erule (1) last)
    done
qed

lemma create_dataarray_dset_dangling:
  "heap s a = None \<Longrightarrow> create_dataarray_dset a g s = (r, s') \<Longrightarrow> s' = s"
  by (simp add: create_dataarray_dset_def deref_def)

lemma create_dataarray_dset_spec:
  assumes run: "create_dataarray_dset a g s = (r, s')" and arr: "heap s a = Some arr"
  defines "c \<equiv> len_units (case units arr of None \<Rightarrow> UPlaceholder | Some v \<Rightarrow> v)"
  shows "untouched g (array_id arr) s s'"
    and "stored s g (array_id arr) = Some d \<Longrightarrow> stored s' g (array_id arr) = Some d"
    and "get_group s g = Inr grp \<Longrightarrow> stored s g (array_id arr) = None \<Longrightarrow>
           \<exists>d. stored s' g (array_id arr) = Some d \<and> table d = ([], c, (None, Some c))"
    and "r = None \<Longrightarrow> stored s g (array_id arr) = None"
proof -
  define key where "key = array_id arr"
  define s1 where "s1 = (if units arr = None
                     then s\<lparr>heap := (heap s)(a \<mapsto> arr\<lparr>units := Some UPlaceholder\<rparr>)\<rparr>
                     else s)"
  define tl where "tl = (\<lambda>s2.
              andthen (set_encoded_attr g key ''label''
                         (case label arr of Some l \<Rightarrow> l | None \<Rightarrow> array_id arr) s2) (\<lambda>s3.
              andthen (set_encoded_attr g key ''name''
                         (case name arr of Some n \<Rightarrow> n | None \<Rightarrow> array_id arr) s3) (\<lambda>s4.
              andthen (set_encoded_attr g key ''units''
                         (str_of_units (case units arr of None \<Rightarrow> UPlaceholder | Some v \<Rightarrow> v))
                         s4) (\<lambda>s5.
              andthen (set_encoded_attr g key ''is_setpoint'' (str_of_bool (is_setpoint arr)) s5)
                (\<lambda>s6.
                 if \<not> is_setpoint arr then
                   (case encode_ids s6 (set_arrays arr) of
                      Inl e \<Rightarrow> (Some e, s6)
                    | Inr ids \<Rightarrow> set_attr g key ''set_arrays'' (PList ids) s6)
                 else (None, s6))))))"
  have unf: "create_dataarray_dset a g s = andthen (h5_create_dataset g key c s1) tl"
    unfolding create_dataarray_dset_def deref_def Let_def key_def s1_def tl_def c_def arr
    by (simp only: option.case sum.case)
  have u1: "untouched g key s s1"
    using arr by (auto simp: untouched_def s1_def)
  have st1: "\<And>p k. stored s1 p k = stored s p k"
    by (simp add: s1_def)
  have gg1: "get_group s1 g = get_group s g"
    by (simp add: s1_def get_group_def)
  from run unf have run': "andthen (h5_create_dataset g key c s1) tl = (r, s')" by simp
  from andthen_cases [OF run']
  consider e where "h5_create_dataset g key c s1 = (Some e, s')" "r = Some e"
    | s2 where "h5_create_dataset g key c s1 = (None, s2)" "tl s2 = (r, s')"
    by blast
  then have main: "untouched g key s s'
      \<and> (\<forall>d. stored s g key = Some d \<longrightarrow> stored s' g key = Some d)
      \<and> (stored s g key = None \<longrightarrow> (\<forall>grp. get_group s g = Inr grp \<longrightarrow>
            (\<exists>d. stored s' g key = Some d \<and> table d = ([], c, (None, Some c)))))
      \<and> (r = None \<longrightarrow> stored s g key = None)"
  proof cases
    case 1
    then have eq: "s' = s1" by (simp add: h5_create_dataset_err)
    have "get_group s g = Inr grp \<Longrightarrow> stored s g key = None \<Longrightarrow> False" for grp
      using 1(1) by (auto simp: h5_create_dataset_def gg1 stored_def split: if_splits)
    then show ?thesis using u1 1(2) by (auto simp: eq st1)
  next
    case 2
    have new: "stored s g key = None"
      using h5_create_dataset_ok(3) [OF 2(1)] by (simp add: st1)
    have u2: "untouched g key s s2"
      using u1 h5_create_dataset_untouched [OF 2(1)] untouched_trans by blast
    have d2: "\<exists>d. stored s2 g key = Some d \<and> table d = ([], c, (None, Some c))"
      using h5_create_dataset_ok(4) [OF 2(1), of g key] by (simp add: table_def)
    from create_attrs_steps [OF u2 d2 2(2) [unfolded tl_def]]
    show ?thesis using new by simp
  qed
  show "untouched g (array_id arr) s s'"
    using main by (simp add: key_def)
  show "stored s g (array_id arr) = Some d \<Longrightarrow> stored s' g (array_id arr) = Some d"
    using main by (simp add: key_def)
  show "get_group s g = Inr grp \<Longrightarrow> stored s g (array_id arr) = None \<Longrightarrow>
           \<exists>d. stored s' g (array_id arr) = Some d \<and> table d = ([], c, (None, Some c))"
    using main by (simp add: key_def)
  show "r = None \<Longrightarrow> stored s g (array_id arr) = None"
    using main by (simp add: key_def)
qed

section \<open>Resizing and assigning rows\<close>

lemma resize_row_id: "length row = c \<Longrightarrow> resize_row c row = row"
  by (simp add: resize_row_def)

lemma wf_rows_resize:
  "wf_dset d \<Longrightarrow> map (resize_row (ncols d)) (take n (rows d)) = take n (rows d)"
  unfolding wf_dset_def
  by (rule map_idI) (auto simp: list_all_iff resize_row_id dest: in_set_takeD)

lemma h5_resize_rows:
  assumes "h5_resize (n, ncols d) d = Inr d1" and "wf_dset d"
  shows "rows d1 = take n (rows d) @ replicate (n - length (rows d)) (replicate (ncols d) fill)"
    and "ncols d1 = ncols d" and "maxshape d1 = maxshape d" and "attrs d1 = attrs d"
    and "length (rows d1) = n" and "wf_dset d1"
proof -
  from assms(1) have d1: "d1 = d\<lparr>rows := map (resize_row (ncols d)) (take n (rows d))
                     @ replicate (n - length (rows d)) (replicate (ncols d) fill),
               ncols := ncols d\<rparr>"
    by (simp add: h5_resize_def split: if_splits)
  show r: "rows d1 = take n (rows d) @ replicate (n - length (rows d)) (replicate (ncols d) fill)"
    by (simp add: d1 wf_rows_resize [OF assms(2)])
  show c: "ncols d1 = ncols d" and "maxshape d1 = maxshape d" and "attrs d1 = attrs d"
    by (simp_all add: d1)
  show "length (rows d1) = n"
    unfolding r by auto
  show "wf_dset d1"
    using assms(2) unfolding wf_dset_def r c
    by (auto simp: list_all_iff dest: in_set_takeD)
qed

lemma h5_setitem_full:
  "length (rows d1) = n \<Longrightarrow>
   h5_setitem cast a n arr d1 =
     (if (n - min a n) * ncols d1 = 0 then Inr d1
      else if length arr = n - min a n \<and> list_all (\<lambda>row. length row = ncols d1) arr then
        Inr (d1\<lparr>rows := take (min a n) (rows d1) @ map (map cast) arr @ drop n (rows d1)\<rparr>)
      else Inl TypeError)"
  unfolding h5_setitem_def Let_def by (simp only: min.idem)

lemma setitem_if_cases:
  assumes "(if (n - m) * ncols d1 = 0 then Inr d1
      else if length arr = n - m \<and> list_all (\<lambda>row. length row = ncols d1) arr then
        Inr (d1\<lparr>rows := take m (rows d1) @ map (map cast) arr @ drop n (rows d1)\<rparr>)
      else Inl TypeError) = (Inr d2 :: error + dset)"
  shows "d2 = d1 \<or> (length arr = n - m \<and> list_all (\<lambda>row. length row = ncols d1) arr \<and>
      d2 = d1\<lparr>rows := take m (rows d1) @ map (map cast) arr @ drop n (rows d1)\<rparr>)"
  using assms
  by (cases "(n - m) * ncols d1 = 0";
      cases "length arr = n - m \<and> list_all (\<lambda>row. length row = ncols d1) arr") auto

lemma h5_setitem_cases:
  assumes "h5_setitem cast a n arr d1 = Inr d2" and "length (rows d1) = n"
  shows "d2 = d1 \<or> (length arr = n - min a n
      \<and> list_all (\<lambda>row. length row = ncols d1) arr
      \<and> d2 = d1\<lparr>rows := take (min a n) (rows d1) @ map (map cast) arr @ drop n (rows d1)\<rparr>)"
proof (rule setitem_if_cases)
  show "(if (n - min a n) * ncols d1 = 0 then Inr d1
      else if length arr = n - min a n \<and> list_all (\<lambda>row. length row = ncols d1) arr then
        Inr (d1\<lparr>rows := take (min a n) (rows d1) @ map (map cast) arr @ drop n (rows d1)\<rparr>)
      else Inl TypeError) = Inr d2"
    using assms(1) by (simp only: h5_setitem_full [OF assms(2)])
qed

lemma wf_dset_splice:
  assumes "wf_dset d1" "list_all (\<lambda>row. length row = ncols d1) arr"
    "d2 = d1\<lparr>rows := take m (rows d1) @ map (map cast) arr @ drop n (rows d1)\<rparr>"
  shows "wf_dset d2"
  using assms(1,2) unfolding wf_dset_def assms(3)
  by (auto simp: list_all_iff dest: in_set_takeD in_set_dropD)

lemma rows_splice:
  assumes "length (rows d1) = n" "m \<le> n" "length arr = n - m"
    "d2 = d1\<lparr>rows := take m (rows d1) @ map (map cast) arr @ drop n (rows d1)\<rparr>"
  shows "length (rows d2) = n" "take m (rows d2) = take m (rows d1)"
  using assms by simp_all

lemma h5_setitem_rows:
  assumes "h5_setitem cast a n arr d1 = Inr d2" and "wf_dset d1" and "length (rows d1) = n"
  shows "ncols d2 = ncols d1" and "maxshape d2 = maxshape d1" and "attrs d2 = attrs d1"
    and "length (rows d2) = n" and "wf_dset d2"
    and "take (min a n) (rows d2) = take (min a n) (rows d1)"
proof -
  have mn: "min a n \<le> n" by simp
  from h5_setitem_cases [OF assms(1,3)]
  have "ncols d2 = ncols d1 \<and> maxshape d2 = maxshape d1 \<and> attrs d2 = attrs d1
      \<and> length (rows d2) = n \<and> wf_dset d2
      \<and> take (min a n) (rows d2) = take (min a n) (rows d1)"
  proof (elim disjE conjE)
    assume "d2 = d1"
    then show ?thesis using assms(2,3) by simp
  next
    assume l: "length arr = n - min a n"
      and w: "list_all (\<lambda>row. length row = ncols d1) arr"
      and d: "d2 = d1\<lparr>rows := take (min a n) (rows d1) @ map (map cast) arr @ drop n (rows d1)\<rparr>"
    have c: "ncols d2 = ncols d1" "maxshape d2 = maxshape d1" "attrs d2 = attrs d1"
      by (simp_all add: d)
    from wf_dset_splice [OF assms(2) w d] rows_splice [OF assms(3) mn l d] c
    show ?thesis by blast
  qed
  then show "ncols d2 = ncols d1" and "maxshape d2 = maxshape d1" and "attrs d2 = attrs d1"
    and "length (rows d2) = n" and "wf_dset d2"
    and "take (min a n) (rows d2) = take (min a n) (rows d1)"
    by blast+
qed

lemma grown_to_refl: "wf_dset d \<Longrightarrow> grown_to n d d"
  by (simp add: grown_to_def)

lemma grown_to_resize:
  assumes "h5_resize (n, ncols d) d = Inr d1" and "wf_dset d"
  shows "grown_to n d d1"
  using h5_resize_rows [OF assms]
  by (simp add: grown_to_def)

lemma grown_to_setitem:
  assumes "h5_resize (n, ncols d) d = Inr d1" and "wf_dset d"
    and "h5_setitem cast (length (rows d)) n arr d1 = Inr d2"
  shows "grown_to n d d2"
proof -
  note r = h5_resize_rows [OF assms(1,2)]
  note t = h5_setitem_rows [OF assms(3) r(6) r(5)]
  have "take (min (length (rows d)) n) (rows d1) = take (min (length (rows d)) n) (rows d)"
    unfolding r(1) by simp
  with t r show ?thesis
    by (simp add: grown_to_def)
qed

lemma grown_to_trans:
  assumes "grown_to n d d1" and "grown_to n d1 d2"
  shows "grown_to n d d2"
proof -
  from assms have c: "ncols d2 = ncols d" "maxshape d2 = maxshape d" "wf_dset d2"
    by (simp_all add: grown_to_def)
  from assms(1) consider "rows d1 = rows d"
    | "length (rows d1) = n"
      "take (min (length (rows d)) n) (rows d1) = take (min (length (rows d)) n) (rows d)"
    by (auto simp: grown_to_def)
  then show ?thesis
  proof cases
    case 1
    with assms(2) c show ?thesis by (simp add: grown_to_def)
  next
    case 2
    from assms(2) consider "rows d2 = rows d1"
      | "length (rows d2) = n" "take (min (length (rows d1)) n) (rows d2)
           = take (min (length (rows d1)) n) (rows d1)"
      by (auto simp: grown_to_def)
    then have "rows d2 = rows d1"
    proof cases
      case 1
      then show ?thesis .
    next
      case b: 2
      with 2(1) show ?thesis by simp
    qed
    with 2 c show ?thesis by (simp add: grown_to_def)
  qed
qed

lemma append_rows_cases:
  assumes "append_rows ds aid g s = (r, s')"
  shows "s' = s \<or>
    (\<exists>grp d x d1. get_group s g = Inr grp \<and> map_of grp aid = Some d
       \<and> bind_err (lookup (arrays ds) aid) (deref s) = Inr x
       \<and> h5_resize (new_dlen (ndarray x), ncols d) d = Inr d1
       \<and> (s' = put_dset g aid d1 s
          \<or> (\<exists>arr d2. h5_setitem (to_float32 s) (length (rows d)) (new_dlen (ndarray x)) arr d1 = Inr d2
                \<and> s' = put_dset g aid d2 (put_dset g aid d1 s))))"
proof (cases "bind_err (get_group s g) (\<lambda>grp. lookup grp aid)")
  case (Inl e)
  with assms show ?thesis by (simp add: append_rows_def)
next
  case d: (Inr d)
  then obtain grp where grp: "get_group s g = Inr grp" "map_of grp aid = Some d"
    by (auto simp: bind_err_def lookup_def split: sum.splits option.splits)
  show ?thesis
  proof (cases "bind_err (lookup (arrays ds) aid) (deref s)")
    case (Inl e)
    with assms d show ?thesis by (simp add: append_rows_def)
  next
    case x: (Inr x)
    show ?thesis
    proof (cases "h5_resize (new_dlen (ndarray x), ncols d) d")
      case (Inl e)
      with assms d x show ?thesis by (simp add: append_rows_def Let_def)
    next
      case d1: (Inr d1)
      show ?thesis
      proof (cases "bind_err (py_slice (ndarray x) (length (rows d)) (new_dlen (ndarray x)))
                      (\<lambda>sl. np_reshape sl (new_dlen (ndarray x), ncols d))")
        case (Inl e)
        with assms d x d1 have "s' = put_dset g aid d1 s"
          by (simp add: append_rows_def Let_def)
        with grp x d1 show ?thesis by blast
      next
        case arr: (Inr arr)
        show ?thesis
        proof (cases "h5_setitem (to_float32 s) (length (rows d)) (new_dlen (ndarray x)) arr d1")
          case (Inl e)
          with assms d x d1 arr have "s' = put_dset g aid d1 s"
            by (simp add: append_rows_def Let_def)
          with grp x d1 show ?thesis by blast
        next
          case d2: (Inr d2)
          with assms d x d1 arr have "s' = put_dset g aid d2 (put_dset g aid d1 s)"
            by (simp add: append_rows_def Let_def)
          with grp x d1 d2 show ?thesis by blast
        qed
      qed
    qed
  qed
qed

lemma populated_eq:
  "bind_err (lookup (arrays ds) aid) (deref s) = Inr x \<Longrightarrow>
   populated ds s aid = new_dlen (ndarray x)"
  by (simp add: populated_def)

lemma get_group_put_dset:
  "get_group s g = Inr grp \<Longrightarrow>
   get_group (put_dset g k d s) g = Inr (AList.update k d grp)"
  by (simp add: put_dset_def get_group_put_group)

lemma append_rows_spec:
  assumes run: "append_rows ds aid g s = (r, s')"
  shows "self s' = self s" and "heap s' = heap s"
    and "(p, k) \<noteq> (g, aid) \<Longrightarrow> stored s' p k = stored s p k"
    and "stored s g aid = Some d \<Longrightarrow> wf_dset d \<Longrightarrow>
           \<exists>d'. stored s' g aid = Some d' \<and> grown_to (populated ds s aid) d d'"
proof -
  from append_rows_cases [OF run]
  consider "s' = s"
    | grp d0 x d1 where "get_group s g = Inr grp" "map_of grp aid = Some d0"
        "bind_err (lookup (arrays ds) aid) (deref s) = Inr x"
        "h5_resize (new_dlen (ndarray x), ncols d0) d0 = Inr d1"
        "s' = put_dset g aid d1 s"
    | grp d0 x d1 arr d2 where "get_group s g = Inr grp" "map_of grp aid = Some d0"
        "bind_err (lookup (arrays ds) aid) (deref s) = Inr x"
        "h5_resize (new_dlen (ndarray x), ncols d0) d0 = Inr d1"
        "h5_setitem (to_float32 s) (length (rows d0)) (new_dlen (ndarray x)) arr d1 = Inr d2"
        "s' = put_dset g aid d2 (put_dset g aid d1 s)"
    by blast
  then have "self s' = self s \<and> heap s' = heap s
      \<and> ((p, k) \<noteq> (g, aid) \<longrightarrow> stored s' p k = stored s p k)
      \<and> (stored s g aid = Some d \<longrightarrow> wf_dset d \<longrightarrow>
           (\<exists>d'. stored s' g aid = Some d' \<and> grown_to (populated ds s aid) d d'))"
  proof cases
    case 1
    then show ?thesis by (auto intro: grown_to_refl)
  next
    case 2
    have st: "stored s g aid = Some d0"
      by (simp add: stored_get_group [OF 2(1)] 2(2))
    have "stored s' g aid = Some d1"
      by (simp add: 2(5) stored_put_dset [OF 2(1)])
    moreover have "wf_dset d0 \<Longrightarrow> grown_to (populated ds s aid) d0 d1"
      using grown_to_resize [OF 2(4)] by (simp add: populated_eq [OF 2(3)])
    moreover have "(p, k) \<noteq> (g, aid) \<Longrightarrow> stored s' p k = stored s p k"
      by (auto simp: 2(5) stored_put_dset [OF 2(1)])
    ultimately show ?thesis using st by (auto simp: 2(5))
  next
    case 3
    have st: "stored s g aid = Some d0"
      by (simp add: stored_get_group [OF 3(1)] 3(2))
    note g1 = get_group_put_dset [OF 3(1), of aid d1]
    have "stored s' g aid = Some d2"
      by (simp add: 3(6) stored_put_dset [OF g1])
    moreover have "wf_dset d0 \<Longrightarrow> grown_to (populated ds s aid) d0 d2"
      using grown_to_setitem [OF 3(4) _ 3(5)] by (simp add: populated_eq [OF 3(3)])
    moreover have "(p, k) \<noteq> (g, aid) \<Longrightarrow> stored s' p k = stored s p k"
      by (auto simp: 3(6) stored_put_dset [OF g1] stored_put_dset [OF 3(1)])
    ultimately show ?thesis using st by (auto simp: 3(6))
  qed
  then show "self s' = self s" and "heap s' = heap s"
    and "(p, k) \<noteq> (g, aid) \<Longrightarrow> stored s' p k = stored s p k"
    and "stored s g aid = Some d \<Longrightarrow> wf_dset d \<Longrightarrow>
           \<exists>d'. stored s' g aid = Some d' \<and> grown_to (populated ds s aid) d d'"
    by blast+
qed

section \<open>What \<open>write\<close> keeps\<close>

lemma populated_cong:
  "\<forall>b. map_option ndarray (heap s' b) = map_option ndarray (heap s b)
   \<Longrightarrow> populated ds s' k = populated ds s k"
proof -
  assume h: "\<forall>b. map_option ndarray (heap s' b) = map_option ndarray (heap s b)"
  show ?thesis
  proof (cases "lookup (arrays ds) k")
    case (Inl e)
    then show ?thesis by (simp add: populated_def bind_err_def)
  next
    case (Inr a)
    from h have "map_option ndarray (heap s' a) = map_option ndarray (heap s a)" by blast
    then show ?thesis
      using Inr by (cases "heap s a"; cases "heap s' a")
        (simp_all add: populated_def bind_err_def deref_def)
  qed
qed

lemma kept_refl: "kept ds s s"
  by (auto simp: kept_def intro: grown_to_refl)

lemma kept_trans:
  assumes "kept ds s s1" and "kept ds s1 s2"
  shows "kept ds s s2"
proof -
  from assms(1) have h1: "\<forall>b. map_option ndarray (heap s1 b) = map_option ndarray (heap s b)"
    by (simp add: kept_def)
  from assms(2) have h2: "\<forall>b. map_option ndarray (heap s2 b) = map_option ndarray (heap s1 b)"
    by (simp add: kept_def)
  have pop: "\<And>k. populated ds s1 k = populated ds s k"
    using populated_cong [OF h1] .
  have "\<exists>d'. stored s2 p k = Some d' \<and> grown_to (populated ds s k) d d'"
    if st: "stored s p k = Some d" and wf: "wf_dset d" for p k d
  proof -
    from assms(1) st wf obtain d1 where d1: "stored s1 p k = Some d1"
      "grown_to (populated ds s k) d d1"
      unfolding kept_def by blast
    then have "wf_dset d1" by (simp add: grown_to_def)
    with assms(2) d1(1) obtain d2 where d2: "stored s2 p k = Some d2"
      "grown_to (populated ds s1 k) d1 d2"
      unfolding kept_def by blast
    from d1(2) d2(2) have "grown_to (populated ds s k) d d2"
      unfolding pop by (rule grown_to_trans)
    with d2(1) show ?thesis by blast
  qed
  with h1 h2 show ?thesis
    unfolding kept_def by simp
qed

lemma untouched_kept:
  assumes "untouched g key s s'"
    and "\<And>d. stored s g key = Some d \<Longrightarrow> stored s' g key = Some d"
  shows "kept ds s s'"
  unfolding kept_def
proof (intro conjI allI impI)
  fix b show "map_option ndarray (heap s' b) = map_option ndarray (heap s b)"
    using assms(1) by (simp add: untouched_def)
next
  fix p k d assume st: "stored s p k = Some d" and wf: "wf_dset d"
  have "stored s' p k = Some d"
  proof (cases "(p, k) = (g, key)")
    case True
    with st assms(2) show ?thesis by simp
  next
    case False
    with assms(1) st show ?thesis by (simp add: untouched_def)
  qed
  with wf show "\<exists>d'. stored s' p k = Some d' \<and> grown_to (populated ds s k) d d'"
    by (auto intro: grown_to_refl)
qed

lemma create_dataarray_dset_kept:
  assumes "create_dataarray_dset a g s = (r, s')"
  shows "kept ds s s'" and "self s' = self s"
proof -
  have "kept ds s s' \<and> self s' = self s"
  proof (cases "heap s a")
    case None
    have "s' = s" using None assms by (rule create_dataarray_dset_dangling)
    then show ?thesis by (simp add: kept_refl)
  next
    case (Some arr)
    note sp = create_dataarray_dset_spec [OF assms Some]
    have "kept ds s s'"
      using sp(1) sp(2) by (rule untouched_kept)
    moreover have "self s' = self s"
      using sp(1) by (simp add: untouched_def)
    ultimately show ?thesis by simp
  qed
  then show "kept ds s s'" and "self s' = self s" by simp_all
qed

lemma append_rows_kept:
  assumes "append_rows ds aid g s = (r, s')"
  shows "kept ds s s'" and "self s' = self s"
proof -
  note sp = append_rows_spec [OF assms]
  show "self s' = self s" by (rule sp(1))
  show "kept ds s s'"
    unfolding kept_def
  proof (intro conjI allI impI)
    fix b show "map_option ndarray (heap s' b) = map_option ndarray (heap s b)"
      by (simp add: sp(2))
  next
    fix p k d assume st: "stored s p k = Some d" and wf: "wf_dset d"
    show "\<exists>d'. stored s' p k = Some d' \<and> grown_to (populated ds s k) d d'"
    proof (cases "(p, k) = (g, aid)")
      case True
      with sp(4) st wf show ?thesis by simp
    next
      case False
      from sp(3) [OF False] st wf show ?thesis
        by (auto intro: grown_to_refl)
    qed
  qed
qed

lemma write_array_kept:
  assumes "write_array ds fw aid s = (r, s')"
  shows "kept ds s s'" and "self s' = self s"
proof -
  have "kept ds s s' \<and> self s' = self s"
  proof (cases "arr_group (self s)")
    case None
    with assms have "s' = s" by (simp add: write_array_def)
    then show ?thesis by (simp add: kept_refl)
  next
    case (Some g)
    show ?thesis
    proof (cases "get_group s g")
      case (Inl e)
      with assms Some have "s' = s" by (simp add: write_array_def)
      then show ?thesis by (simp add: kept_refl)
    next
      case (Inr grp)
      define m where "m = (if map_of grp aid = None \<or> fw then
                    (case lookup (arrays ds) aid of
                       Inl e \<Rightarrow> (Some e, s)
                     | Inr a \<Rightarrow> create_dataarray_dset a g s)
                  else (None, s))"
      from assms Some Inr have run: "andthen m (append_rows ds aid g) = (r, s')"
        by (simp add: write_array_def m_def)
      have first: "kept ds s s1 \<and> self s1 = self s" if "m = (r1, s1)" for r1 s1
      proof -
        from that consider "s1 = s" | a where "create_dataarray_dset a g s = (r1, s1)"
          by (auto simp: m_def split: if_splits sum.splits)
        then show ?thesis
        proof cases
          case 1
          then show ?thesis by (simp add: kept_refl)
        next
          case 2
          then show ?thesis
            using create_dataarray_dset_kept by blast
        qed
      qed
      show ?thesis
      proof (rule andthen_rel [OF run, where P = "\<lambda>t. kept ds s t \<and> self t = self s"])
        fix r1 s1 assume "m = (r1, s1)"
        then show "kept ds s s1 \<and> self s1 = self s" by (rule first)
      next
        fix s1 assume p: "kept ds s s1 \<and> self s1 = self s"
          and a: "append_rows ds aid g s1 = (r, s')"
        from append_rows_kept [OF a] p kept_trans
        show "kept ds s s' \<and> self s' = self s" by metis
      qed
    qed
  qed
  then show "kept ds s s'" and "self s' = self s" by simp_all
qed

lemma write_arrays_kept:
  "write_arrays ds fw ks s = (r, s') \<Longrightarrow> kept ds s s' \<and> self s' = self s"
proof (induction ks arbitrary: s)
  case Nil
  then show ?case by (simp add: kept_refl)
next
  case (Cons aid rest)
  from Cons.prems
  have run: "andthen (write_array ds fw aid s) (write_arrays ds fw rest) = (r, s')" by simp
  show ?case
  proof (rule andthen_rel [OF run, where P = "\<lambda>t. kept ds s t \<and> self t = self s"])
    fix r1 s1 assume "write_array ds fw aid s = (r1, s1)"
    then show "kept ds s s1 \<and> self s1 = self s"
      using write_array_kept by blast
  next
    fix s1 assume p: "kept ds s s1 \<and> self s1 = self s"
      and a: "write_arrays ds fw rest s1 = (r, s')"
    from Cons.IH [OF a] p kept_trans
    show "kept ds s s' \<and> self s' = self s" by metis
  qed
qed

lemma stored_self_update [simp]: "stored (s\<lparr>self := f\<rparr>) p k = stored s p k"
  by (simp add: stored_def get_group_def)

lemma stored_create_file [simp]: "stored (create_file fp s) p k = stored s p k"
  by (auto simp: stored_def get_group_def create_file_def split: option.splits)

lemma heap_create_file [simp]: "heap (create_file fp s) = heap s"
  by (simp add: create_file_def split: option.splits)

lemma stored_new_group:
  "files s p = Some f \<Longrightarrow> data_arrays f = None \<Longrightarrow>
   stored (s\<lparr>files := (files s)(p \<mapsto> f\<lparr>data_arrays := Some []\<rparr>), self := x\<rparr>) q k = stored s q k"
  by (auto simp: stored_def get_group_def split: option.splits)

lemma write_setup_frame [simp]:
  "stored (write_setup ds fw s) p k = stored s p k"
  "heap (write_setup ds fw s) = heap s"
  by (simp_all add: write_setup_def Let_def)

lemma hdf5_write_cases:
  assumes "hdf5_write ds fw s = (r, s')"
  shows "\<exists>s2. heap s2 = heap s \<and> (\<forall>p k. stored s2 p k = stored s p k)
           \<and> (s' = s2 \<or> write_arrays ds fw (map fst (arrays ds)) s2 = (r, s'))"
proof -
  define s1 where "s1 = write_setup ds fw s"
  have fr: "heap s1 = heap s" "\<And>p k. stored s1 p k = stored s p k"
    by (simp_all add: s1_def)
  have unf: "hdf5_write ds fw s =
      (case data_object (self s1) of
           None \<Rightarrow> (Some AttributeError, s1)
         | Some p \<Rightarrow>
             (case files s1 p of
                None \<Rightarrow> (Some DanglingRef, s1)
              | Some f \<Rightarrow>
                  (let s2 =
                     (if data_arrays f = None then
                        s1\<lparr>files := (files s1)(p \<mapsto> f\<lparr>data_arrays := Some []\<rparr>),
                           self := (self s1)\<lparr>arr_group := Some p\<rparr>\<rparr>
                      else s1)
                   in write_arrays ds fw (map fst (arrays ds)) s2)))"
    unfolding hdf5_write_def s1_def write_setup_def Let_def by (rule refl)
  show ?thesis
  proof (cases "data_object (self s1)")
    case None
    with assms unf have "s' = s1" by simp
    with fr show ?thesis by blast
  next
    case (Some p)
    show ?thesis
    proof (cases "files s1 p")
      case None
      with assms unf Some have "s' = s1" by simp
      with fr show ?thesis by blast
    next
      case f: (Some f)
      define s2 where "s2 = (if data_arrays f = None then
                        s1\<lparr>files := (files s1)(p \<mapsto> f\<lparr>data_arrays := Some []\<rparr>),
                           self := (self s1)\<lparr>arr_group := Some p\<rparr>\<rparr>
                      else s1)"
      have "heap s2 = heap s"
        by (simp add: s2_def fr)
      moreover have "\<And>q k. stored s2 q k = stored s q k"
        using stored_new_group [OF f] by (simp add: s2_def fr)
      moreover have "write_arrays ds fw (map fst (arrays ds)) s2 = (r, s')"
        using assms unf Some f by (simp add: s2_def Let_def)
      ultimately show ?thesis by blast
    qed
  qed
qed

lemma hdf5_write_kept:
  assumes "hdf5_write ds fw s = (r, s')"
  shows "kept ds s s'"
proof -
  from hdf5_write_cases [OF assms] obtain s2 where h: "heap s2 = heap s"
    and st: "\<forall>p k. stored s2 p k = stored s p k"
    and c: "s' = s2 \<or> write_arrays ds fw (map fst (arrays ds)) s2 = (r, s')"
    by blast
  have k1: "kept ds s s2"
    unfolding kept_def using h st by (auto intro: grown_to_refl)
  from c show ?thesis
  proof
    assume "s' = s2"
    with k1 show ?thesis by simp
  next
    assume "write_arrays ds fw (map fst (arrays ds)) s2 = (r, s')"
    from write_arrays_kept [OF this] k1 show ?thesis
      using kept_trans by blast
  qed
qed

section \<open>The slice and its reshape\<close>

lemma new_dlen_le: "new_dlen x \<le> length (elems x)"
  by (simp add: new_dlen_def)

lemma new_dlen_vec: "new_dlen (vec xs) = length (filter (\<lambda>c. c \<noteq> NaN) xs)"
  by (simp add: new_dlen_def vec_def)

lemma length_py_slice:
  assumes "wf_ndarr x" and "py_slice x a b = Inr sl"
  shows "length sl = slice_size x a b"
proof (cases "shape x")
  case Nil
  with assms(2) show ?thesis by (simp add: py_slice_def)
next
  case (Cons n rest)
  define item where "item = prod_list rest"
  have l: "length (elems x) = n * item"
    using assms(1) by (simp add: wf_ndarr_def Cons item_def)
  have sl: "sl = take ((min b n - min a n) * item) (drop (min a n * item) (elems x))"
    using assms(2) by (simp add: py_slice_def Cons item_def)
  have "min b n - min a n \<le> n - min a n" by simp
  then have "(min b n - min a n) * item \<le> (n - min a n) * item"
    by (rule mult_le_mono1)
  then have "(min b n - min a n) * item \<le> n * item - min a n * item"
    by (simp only: diff_mult_distrib)
  then show ?thesis
    by (simp add: sl l slice_size_def Cons item_def)
qed

lemma py_slice_ok: "shape x \<noteq> [] \<Longrightarrow> \<exists>sl. py_slice x a b = Inr sl"
  by (cases "shape x") (simp_all add: py_slice_def)

lemma py_slice_vec_0: "py_slice (vec xs) 0 b = Inr (take b xs)"
  by (simp add: py_slice_def vec_def min_def)

lemma slice_size_vec: "slice_size (vec xs) a b = min b (length xs) - min a (length xs)"
  by (simp add: slice_size_def vec_def)

lemma wf_ndarr_vec: "wf_ndarr (vec xs)"
  by (simp add: wf_ndarr_def vec_def)

lemma chunks_singletons: "length xs = n \<Longrightarrow> chunks n (Suc 0) xs = map (\<lambda>c. [c]) xs"
proof (induction n arbitrary: xs)
  case 0
  then show ?case by simp
next
  case (Suc n)
  then obtain y ys where xs: "xs = y # ys" by (cases xs) auto
  with Suc show ?case by simp
qed

lemma h5_resize_ok:
  "fits_max n (fst (maxshape d)) \<Longrightarrow> fits_max (ncols d) (snd (maxshape d)) \<Longrightarrow>
   \<exists>d1. h5_resize (n, ncols d) d = Inr d1"
  by (simp add: h5_resize_def)

text \<open>
  Whenever the slice does not have as many samples as the whole new shape has cells, the
  loop body stops with \<open>ValueError\<close>, after the table has been resized.
\<close>

lemma append_rows_reshape_fails:
  assumes grp: "get_group s g = Inr grp" "map_of grp aid = Some d"
    and x: "bind_err (lookup (arrays ds) aid) (deref s) = Inr x"
    and fits: "fits_max (new_dlen (ndarray x)) (fst (maxshape d))"
      "fits_max (ncols d) (snd (maxshape d))"
    and wf: "wf_ndarr (ndarray x)" "shape (ndarray x) \<noteq> []"
    and bad: "slice_size (ndarray x) (length (rows d)) (new_dlen (ndarray x))
                \<noteq> new_dlen (ndarray x) * ncols d"
  shows "\<exists>d1. h5_resize (new_dlen (ndarray x), ncols d) d = Inr d1
           \<and> append_rows ds aid g s = (Some ValueError, put_dset g aid d1 s)"
proof -
  from h5_resize_ok [OF fits] obtain d1
    where d1: "h5_resize (new_dlen (ndarray x), ncols d) d = Inr d1" by blast
  have d: "bind_err (get_group s g) (\<lambda>grp. lookup grp aid) = Inr d"
    by (simp add: bind_err_def lookup_def grp)
  from py_slice_ok [OF wf(2)] obtain sl
    where sl: "py_slice (ndarray x) (length (rows d)) (new_dlen (ndarray x)) = Inr sl" by blast
  have "np_reshape sl (new_dlen (ndarray x), ncols d) = Inl ValueError"
    using bad by (simp add: np_reshape_def length_py_slice [OF wf(1) sl])
  then have "bind_err (py_slice (ndarray x) (length (rows d)) (new_dlen (ndarray x)))
      (\<lambda>sl. np_reshape sl (new_dlen (ndarray x), ncols d)) = Inl ValueError"
    by (simp add: bind_err_def sl)
  then have "append_rows ds aid g s = (Some ValueError, put_dset g aid d1 s)"
    by (simp add: append_rows_def d x d1 Let_def)
  with d1 show ?thesis by blast
qed



lemma append_rows_growth_fails:
  assumes grp: "get_group s g = Inr grp" "map_of grp aid = Some d"
    and x: "bind_err (lookup (arrays ds) aid) (deref s) = Inr x"
    and fits: "fits_max (new_dlen (ndarray x)) (fst (maxshape d))"
      "fits_max (ncols d) (snd (maxshape d))"
    and vec: "ndarray x = vec xs"
    and cols: "ncols d = 1" and old: "0 < length (rows d)"
    and grow: "length (rows d) \<le> new_dlen (ndarray x)"
  shows "fst (append_rows ds aid g s) = Some ValueError"
proof -
  define n where "n = new_dlen (ndarray x)"
  have le: "n \<le> length xs"
    using new_dlen_le [of "ndarray x"] by (simp add: n_def vec vec_def)
  have sz: "slice_size (ndarray x) (length (rows d)) n = n - length (rows d)"
    using le by (simp add: vec slice_size_vec min_def)
  have "n - length (rows d) < n"
    using old grow unfolding n_def by linarith
  with sz have bad: "slice_size (ndarray x) (length (rows d)) (new_dlen (ndarray x))
      \<noteq> new_dlen (ndarray x) * ncols d"
    by (simp add: cols n_def)
  have wf: "wf_ndarr (ndarray x)" "shape (ndarray x) \<noteq> []"
    by (simp_all add: vec wf_ndarr_vec) (simp add: vec_def)
  from append_rows_reshape_fails [OF grp x fits wf bad] show ?thesis by auto
qed

text \<open>
  The first call on an empty table of one column, for a payload of one dimension, stores
  the first \<open>new_dlen\<close> samples, each converted to the type of the table.
\<close>

lemma append_rows_first:
  assumes grp: "get_group s g = Inr grp" "map_of grp aid = Some d"
    and x: "bind_err (lookup (arrays ds) aid) (deref s) = Inr x"
    and vec: "ndarray x = vec ys"
    and empty: "rows d = []" "ncols d = 1" "maxshape d = (None, Some 1)"
  shows "\<exists>s'. append_rows ds aid g s = (None, s')
           \<and> stored s' g aid
               = Some (d\<lparr>rows := map (\<lambda>c. [to_float32 s c]) (take (new_dlen (vec ys)) ys)\<rparr>)"
proof -
  define n where "n = new_dlen (ndarray x)"
  define xs where "xs = take n ys"
  define cast where "cast = to_float32 s"
  have lxs: "length xs = n"
    using new_dlen_le [of "ndarray x"] by (simp add: xs_def n_def vec vec_def)
  define d1 where "d1 = d\<lparr>rows := replicate n [fill]\<rparr>"
  have dd: "bind_err (get_group s g) (\<lambda>grp. lookup grp aid) = Inr d"
    by (simp add: bind_err_def lookup_def grp)
  have r: "h5_resize (n, ncols d) d = Inr d1"
    using empty by (simp add: h5_resize_def fits_max_def d1_def)
  have sl: "py_slice (ndarray x) (length (rows d)) n = Inr xs"
    by (simp add: vec py_slice_vec_0 empty xs_def)
  have "np_reshape xs (n, ncols d) = Inr (map (\<lambda>c. [c]) xs)"
    by (simp add: np_reshape_def empty lxs chunks_singletons)
  then have rs: "bind_err (py_slice (ndarray x) (length (rows d)) n)
      (\<lambda>sl. np_reshape sl (n, ncols d)) = Inr (map (\<lambda>c. [c]) xs)"
    by (simp add: bind_err_def sl)
  have si: "h5_setitem cast (length (rows d)) n (map (\<lambda>c. [c]) xs) d1
      = Inr (d\<lparr>rows := map (\<lambda>c. [cast c]) xs\<rparr>)"
  proof (cases "n = 0")
    case True
    with lxs have "xs = []" by simp
    with True show ?thesis
      using empty by (simp add: h5_setitem_def d1_def)
  next
    case False
    then show ?thesis
      using empty lxs by (simp add: h5_setitem_def d1_def list_all_iff comp_def)
  qed
  have run: "append_rows ds aid g s
      = (None, put_dset g aid (d\<lparr>rows := map (\<lambda>c. [cast c]) xs\<rparr>) (put_dset g aid d1 s))"
    by (simp add: append_rows_def dd x Let_def r rs si n_def [symmetric] cast_def [symmetric])
  note g1 = get_group_put_dset [OF grp(1), of aid d1]
  have "stored (put_dset g aid (d\<lparr>rows := map (\<lambda>c. [cast c]) xs\<rparr>) (put_dset g aid d1 s)) g aid
      = Some (d\<lparr>rows := map (\<lambda>c. [cast c]) xs\<rparr>)"
    by (simp add: stored_put_dset [OF g1])
  with run show ?thesis
    by (simp add: xs_def n_def cast_def vec)
qed
lemma append_rows_resized:
  assumes grp: "get_group s g = Inr grp" "map_of grp aid = Some d"
    and x: "bind_err (lookup (arrays ds) aid) (deref s) = Inr x"
    and fits: "fits_max (new_dlen (ndarray x)) (fst (maxshape d))"
      "fits_max (ncols d) (snd (maxshape d))"
    and wf: "wf_dset d"
  shows "\<exists>d'. stored (snd (append_rows ds aid g s)) g aid = Some d'
           \<and> length (rows d') = new_dlen (ndarray x) \<and> ncols d' = ncols d
           \<and> take (min (length (rows d)) (new_dlen (ndarray x))) (rows d')
               = take (min (length (rows d)) (new_dlen (ndarray x))) (rows d)"
proof -
  define n where "n = new_dlen (ndarray x)"
  from h5_resize_ok [OF fits] obtain d1
    where d1: "h5_resize (n, ncols d) d = Inr d1" unfolding n_def by blast
  note r = h5_resize_rows [OF d1 wf]
  have t1: "take (min (length (rows d)) n) (rows d1) = take (min (length (rows d)) n) (rows d)"
    unfolding r(1) by simp
  obtain res s' where run: "append_rows ds aid g s = (res, s')"
    by (cases "append_rows ds aid g s")
  have st: "stored s g aid = Some d"
    by (simp add: stored_get_group [OF grp(1)] grp(2))
  have bx: "bind_err (lookup (arrays ds) aid) (deref s) = Inr x'
      \<Longrightarrow> x' = x" for x'
    using x by simp
  from append_rows_cases [OF run]
  consider "s' = s"
    | grp0 d0 x0 d10 where "get_group s g = Inr grp0" "map_of grp0 aid = Some d0"
        "bind_err (lookup (arrays ds) aid) (deref s) = Inr x0"
        "h5_resize (new_dlen (ndarray x0), ncols d0) d0 = Inr d10"
        "s' = put_dset g aid d10 s"
    | grp0 d0 x0 d10 arr d2 where "get_group s g = Inr grp0" "map_of grp0 aid = Some d0"
        "bind_err (lookup (arrays ds) aid) (deref s) = Inr x0"
        "h5_resize (new_dlen (ndarray x0), ncols d0) d0 = Inr d10"
        "h5_setitem (to_float32 s) (length (rows d0)) (new_dlen (ndarray x0)) arr d10 = Inr d2"
        "s' = put_dset g aid d2 (put_dset g aid d10 s)"
    by blast
  then have "\<exists>d'. stored s' g aid = Some d'
           \<and> length (rows d') = n \<and> ncols d' = ncols d
           \<and> take (min (length (rows d)) n) (rows d') = take (min (length (rows d)) n) (rows d)"
  proof cases
    case 1
    have dd: "bind_err (get_group s g) (\<lambda>grp. lookup grp aid) = Inr d"
      by (simp add: bind_err_def lookup_def grp)
    have "s' \<noteq> s \<or> stored s' g aid \<noteq> Some d \<or> length (rows d) = n"
    proof (cases "bind_err (py_slice (ndarray x) (length (rows d)) n)
                      (\<lambda>sl. np_reshape sl (n, ncols d))")
      case (Inl e)
      with run have "s' = put_dset g aid d1 s"
        by (simp add: append_rows_def dd x d1 Let_def n_def [symmetric])
      then have "stored s' g aid = Some d1"
        by (simp add: stored_put_dset [OF grp(1)])
      with r(5) show ?thesis by auto
    next
      case arr: (Inr arr)
      show ?thesis
      proof (cases "h5_setitem (to_float32 s) (length (rows d)) n arr d1")
        case (Inl e)
        with run arr have "s' = put_dset g aid d1 s"
          by (simp add: append_rows_def dd x d1 Let_def n_def [symmetric])
        then have "stored s' g aid = Some d1"
          by (simp add: stored_put_dset [OF grp(1)])
        with r(5) show ?thesis by auto
      next
        case (Inr d2)
        with run arr have "s' = put_dset g aid d2 (put_dset g aid d1 s)"
          by (simp add: append_rows_def dd x d1 Let_def n_def [symmetric])
        then have "stored s' g aid = Some d2"
          by (simp add: stored_put_dset [OF get_group_put_dset [OF grp(1)]])
        with h5_setitem_rows(4) [OF Inr r(6) r(5)] show ?thesis by auto
      qed
    qed
    with 1 st r t1 show ?thesis by auto
  next
    case 2
    from 2(1,2) grp have "d0 = d" by simp
    moreover from 2(3) x have "x0 = x" by simp
    ultimately have "d10 = d1" using 2(4) d1 by (simp add: n_def)
    then have "stored s' g aid = Some d1"
      by (simp add: 2(5) stored_put_dset [OF grp(1)])
    with r t1 show ?thesis by simp
  next
    case 3
    from 3(1,2) grp have d0: "d0 = d" by simp
    moreover from 3(3) x have x0: "x0 = x" by simp
    ultimately have d10: "d10 = d1" using 3(4) d1 by (simp add: n_def)
    have si: "h5_setitem (to_float32 s) (length (rows d)) n arr d1 = Inr d2"
      using 3(5) by (simp add: d0 x0 d10 n_def)
    note t = h5_setitem_rows [OF si r(6) r(5)]
    have "stored s' g aid = Some d2"
      by (simp add: 3(6) stored_put_dset [OF get_group_put_dset [OF grp(1)]])
    with t r t1 show ?thesis by simp
  qed
  then show ?thesis
    by (simp add: run n_def)
qed

text \<open>Without \<open>force_write\<close>, the loop body on an array whose table exists is that step.\<close>

lemma write_array_existing:
  assumes "arr_group (self s) = Some g" and "get_group s g = Inr grp"
    and "map_of grp aid = Some d"
  shows "write_array ds False aid s = append_rows ds aid g s"
  by (simp add: write_array_def assms andthen_def)
section \<open>The scenario, evaluated\<close>

lemma S_simps:
  "S ''x'' = [120]" "S ''y'' = [121]" "S ''V'' = [86]" "S ''/'' = [47]"
  "S ''True'' = [84, 114, 117, 101]" "S ''False'' = [70, 97, 108, 115, 101]"
  "S ''.hdf5'' = [46, 104, 100, 102, 53]" "S ''d/run'' = [100, 47, 114, 117, 110]"
  "S ''d/run/run.hdf5'' = [100, 47, 114, 117, 110, 47, 114, 117, 110, 46, 104, 100, 102, 53]"
  by (simp_all add: S_def)

lemma enc_simps:
  "encode_to_utf8 (PStr [120]) = Inr (PBytes ''x'')"
  "encode_to_utf8 (PStr [121]) = Inr (PBytes ''y'')"
  "encode_to_utf8 (PStr [86]) = Inr (PBytes ''V'')"
  "encode_to_utf8 (PStr [84, 114, 117, 101]) = Inr (PBytes ''True'')"
  "encode_to_utf8 (PStr [70, 97, 108, 115, 101]) = Inr (PBytes ''False'')"
  by (simp_all add: encode_to_utf8_def bind_err_def utf8_encode_cp_def char_of_eq_iff)

lemmas model_defs =
  hdf5_write_def write_array_def append_rows_def create_dataarray_dset_def
  h5_create_dataset_def set_encoded_attr_def set_attr_def put_dset_def put_group_def
  get_group_def deref_def lookup_def bind_err_def andthen_def create_file_def
  h5_resize_def h5_setitem_def np_reshape_def py_slice_def new_dlen_def fits_max_def
  resize_row_def len_units_def str_of_units_def str_of_bool_def basename_def fill_def
  vec_def

lemmas scen_defs =
  start_def mem_def ds0_def fresh_def fp0_def opened_def arr_x_def arr_y_def dset_x_def
  dset_y_def file_xy_def written_def exact_def

lemma first_write:
  "hdf5_write ds0 False (start [Val 0, Val 1, Val 2, NaN, NaN] [Val 10, Val 11, Val 12, NaN, NaN]) =
     (None, written opened (mem [Val 0, Val 1, Val 2, NaN, NaN] [Val 10, Val 11, Val 12, NaN, NaN])
              [[Val 0], [Val 1], [Val 2]] [[Val 10], [Val 11], [Val 12]])"
  by (simp add: model_defs scen_defs S_simps enc_simps Let_def)

lemma second_write:
  "hdf5_write ds0 False
     (written opened (mem [Val 0, Val 1, Val 2, Val 3, NaN] [Val 10, Val 11, Val 12, Val 13, NaN])
        [[Val 0], [Val 1], [Val 2]] [[Val 10], [Val 11], [Val 12]]) =
     (Some ValueError,
      written opened (mem [Val 0, Val 1, Val 2, Val 3, NaN] [Val 10, Val 11, Val 12, Val 13, NaN])
        [[Val 0], [Val 1], [Val 2], [Val 0]] [[Val 10], [Val 11], [Val 12]])"
  by (simp add: model_defs scen_defs S_simps enc_simps Let_def)

lemma repeated_write:
  "hdf5_write ds0 False
     (written opened (mem [Val 0, Val 1, Val 2, NaN, NaN] [Val 10, Val 11, Val 12, NaN, NaN])
        [[Val 0], [Val 1], [Val 2]] [[Val 10], [Val 11], [Val 12]]) =
     (Some ValueError,
      written opened (mem [Val 0, Val 1, Val 2, NaN, NaN] [Val 10, Val 11, Val 12, NaN, NaN])
        [[Val 0], [Val 1], [Val 2]] [[Val 10], [Val 11], [Val 12]])"
  by (simp add: model_defs scen_defs S_simps enc_simps Let_def)

lemma reset_write:
  "hdf5_write ds0 False
     (written opened (mem [NaN, NaN, NaN, NaN, NaN] [NaN, NaN, NaN, NaN, NaN])
        [[Val 0], [Val 1], [Val 2]] [[Val 10], [Val 11], [Val 12]]) =
     (None, written opened (mem [NaN, NaN, NaN, NaN, NaN] [NaN, NaN, NaN, NaN, NaN]) [] [])"
  by (simp add: model_defs scen_defs S_simps enc_simps Let_def)

lemma reopened_write:
  "hdf5_write ds0 False
     (written fresh (mem [Val 0, Val 1, Val 2, Val 3, NaN] [Val 10, Val 11, Val 12, Val 13, NaN])
        [[Val 0], [Val 1], [Val 2]] [[Val 10], [Val 11], [Val 12]]) =
     (Some AttributeError,
      written (fresh\<lparr>data_object := Some fp0, filepath := Some fp0\<rparr>)
        (mem [Val 0, Val 1, Val 2, Val 3, NaN] [Val 10, Val 11, Val 12, Val 13, NaN])
        [[Val 0], [Val 1], [Val 2]] [[Val 10], [Val 11], [Val 12]])"
  by (simp add: model_defs scen_defs S_simps enc_simps Let_def)

lemma holes_write:
  "hdf5_write ds0 False (start [Val 1, NaN, Val 3] [NaN, NaN, NaN]) =
     (None, written opened (mem [Val 1, NaN, Val 3] [NaN, NaN, NaN]) [[Val 1], [NaN]] [])"
  by (simp add: model_defs scen_defs S_simps enc_simps Let_def)

lemma S_simps_w: "S ''w'' = [119]" "S ''abc'' = [97, 98, 99]"
  by (simp_all add: S_def)

lemma enc_simps_w:
  "encode_to_utf8 (PStr [119]) = Inr (PBytes ''w'')"
  "encode_to_utf8 (PStr [97, 98, 99]) = Inr (PBytes ''abc'')"
  by (simp_all add: encode_to_utf8_def bind_err_def utf8_encode_cp_def char_of_eq_iff)

lemmas scen_defs_w = arr_w_def ds_w_def dset_w_def state_w_def w_vec_def w_grid_def



lemma append_w:
  "append_rows ds_w (S ''w'') fp0 (state_w w_vec [(S ''w'', dset_w [])]) =
     (Some ValueError,
      state_w w_vec [(S ''w'', dset_w [replicate 3 (Val 0), replicate 3 (Val 0)])])"
  by (simp add: model_defs scen_defs scen_defs_w S_simps enc_simps S_simps_w enc_simps_w Let_def
      numeral_3_eq_3 [symmetric])



section \<open>Claims about \<open>write\<close>\<close>

lemma stored_written:
  "stored (written f h rx ry) fp0 (S ''x'') = Some (dset_x rx)"
  "stored (written f h rx ry) fp0 (S ''y'') = Some (dset_y ry)"
  by (simp_all add: stored_def get_group_def written_def file_xy_def S_simps)

text \<open>
  C1 (the code departs from the claim). In the scenario of the specification the first
  call of \<open>write\<close> stores three rows for \<open>x\<close> and for \<open>y\<close>. After \<open>x[3] = 3.0\<close> and
  \<open>y[3] = 13.0\<close> the second call grows the table of \<open>x\<close> to four rows and then raises
  \<open>ValueError\<close>: the one-sample slice \<open>x[3:4]\<close> is reshaped to the whole new shape \<open>(4, 1)\<close>.
  Row 3 of \<open>x\<close> holds the fill value, and \<open>y\<close> is not visited.
\<close>

theorem incremental_append_raises:
  "hdf5_write ds0 False
     (start [Val 0, Val 1, Val 2, NaN, NaN] [Val 10, Val 11, Val 12, NaN, NaN]) =
     (None, written opened (mem [Val 0, Val 1, Val 2, NaN, NaN] [Val 10, Val 11, Val 12, NaN, NaN])
              [[Val 0], [Val 1], [Val 2]] [[Val 10], [Val 11], [Val 12]])
   \<and> hdf5_write ds0 False
     (written opened (mem [Val 0, Val 1, Val 2, Val 3, NaN] [Val 10, Val 11, Val 12, Val 13, NaN])
        [[Val 0], [Val 1], [Val 2]] [[Val 10], [Val 11], [Val 12]]) =
     (Some ValueError,
      written opened (mem [Val 0, Val 1, Val 2, Val 3, NaN] [Val 10, Val 11, Val 12, Val 13, NaN])
        [[Val 0], [Val 1], [Val 2], [Val 0]] [[Val 10], [Val 11], [Val 12]])"
  using first_write second_write by simp

text \<open>
  C2 (as amended). \<open>write\<close> has no guard that skips an array: without \<open>force_write\<close>, the
  loop body on an array whose table exists, is rectangular and admits the resize leaves
  the table with exactly \<open>new_length\<close> rows, the number of samples of the in-memory array
  that are not NaN, whatever \<open>old_length\<close> is and whether or not the assignment that
  follows raises; a table with more rows is truncated. For every call of \<open>write\<close> and
  every stored rectangular table, the number of columns stays, and the rows either stay
  as they were or become \<open>new_length\<close> rows, the first \<open>min old_length new_length\<close> of them
  being the old ones. So when \<open>new_length\<close> is at least \<open>old_length\<close>, the row count does
  not decrease and no persisted row is rewritten or truncated; when the two are equal the
  rows are unchanged.
\<close>

theorem write_keeps_persisted_rows:
  "(arr_group (self s0) = Some g \<and> stored s0 g aid = Some d0 \<and> wf_dset d0
      \<and> bind_err (lookup (arrays ds) aid) (deref s0) = Inr x
      \<and> fits_max (new_dlen (ndarray x)) (fst (maxshape d0))
      \<and> fits_max (ncols d0) (snd (maxshape d0)) \<longrightarrow>
      (\<exists>d'. stored (snd (write_array ds False aid s0)) g aid = Some d'
         \<and> length (rows d') = new_dlen (ndarray x) \<and> ncols d' = ncols d0
         \<and> take (min (length (rows d0)) (new_dlen (ndarray x))) (rows d')
             = take (min (length (rows d0)) (new_dlen (ndarray x))) (rows d0)))
   \<and> (hdf5_write ds fw s = (r, s') \<and> stored s p k = Some d \<and> wf_dset d \<longrightarrow>
      (\<exists>d'. stored s' p k = Some d' \<and> ncols d' = ncols d
         \<and> (rows d' = rows d
            \<or> (length (rows d') = populated ds s k
               \<and> take (min (length (rows d)) (populated ds s k)) (rows d')
                   = take (min (length (rows d)) (populated ds s k)) (rows d)))
         \<and> (length (rows d) \<le> populated ds s k \<longrightarrow>
              length (rows d) \<le> length (rows d') \<and> take (length (rows d)) (rows d') = rows d)
         \<and> (length (rows d) = populated ds s k \<longrightarrow> rows d' = rows d)))"
proof -
  have a: "\<exists>d'. stored (snd (write_array ds False aid s0)) g aid = Some d'
         \<and> length (rows d') = new_dlen (ndarray x) \<and> ncols d' = ncols d0
         \<and> take (min (length (rows d0)) (new_dlen (ndarray x))) (rows d')
             = take (min (length (rows d0)) (new_dlen (ndarray x))) (rows d0)"
    if h: "arr_group (self s0) = Some g" "stored s0 g aid = Some d0" "wf_dset d0"
      "bind_err (lookup (arrays ds) aid) (deref s0) = Inr x"
      "fits_max (new_dlen (ndarray x)) (fst (maxshape d0))"
      "fits_max (ncols d0) (snd (maxshape d0))"
  proof -
    from stored_Some_group [OF h(2)] obtain grp
      where grp: "get_group s0 g = Inr grp" "map_of grp aid = Some d0" by blast
    show ?thesis
      unfolding write_array_existing [OF h(1) grp]
      by (rule append_rows_resized [OF grp h(4,5,6,3)])
  qed
  have b: "\<exists>d'. stored s' p k = Some d' \<and> ncols d' = ncols d
         \<and> (rows d' = rows d
            \<or> (length (rows d') = populated ds s k
               \<and> take (min (length (rows d)) (populated ds s k)) (rows d')
                   = take (min (length (rows d)) (populated ds s k)) (rows d)))
         \<and> (length (rows d) \<le> populated ds s k \<longrightarrow>
              length (rows d) \<le> length (rows d') \<and> take (length (rows d)) (rows d') = rows d)
         \<and> (length (rows d) = populated ds s k \<longrightarrow> rows d' = rows d)"
    if h: "hdf5_write ds fw s = (r, s')" "stored s p k = Some d" "wf_dset d"
  proof -
    from hdf5_write_kept [OF h(1)] h(2,3)
    obtain d' where d': "stored s' p k = Some d'" and g: "grown_to (populated ds s k) d d'"
      unfolding kept_def by blast
    define n where "n = populated ds s k"
    from g have c: "ncols d' = ncols d"
      and r: "rows d' = rows d
                \<or> (length (rows d') = n
                   \<and> take (min (length (rows d)) n) (rows d')
                       = take (min (length (rows d)) n) (rows d))"
      by (simp_all add: grown_to_def n_def)
    have a: "length (rows d) \<le> length (rows d') \<and> take (length (rows d)) (rows d') = rows d"
      if "length (rows d) \<le> n"
      using r that by (auto simp: min_absorb1)
    have b: "rows d' = rows d" if "length (rows d) = n"
      using r that by auto
    from d' c r a b show ?thesis
      unfolding n_def by blast
  qed
  from a b show ?thesis by blast
qed

theorem write_keeps_persisted_rows_witness:
  "arr_group (self (written opened (mem [NaN, NaN, NaN, NaN, NaN] [NaN, NaN, NaN, NaN, NaN])
      [[Val 0], [Val 1], [Val 2]] [[Val 10], [Val 11], [Val 12]])) = Some fp0
   \<and> stored (written opened (mem [NaN, NaN, NaN, NaN, NaN] [NaN, NaN, NaN, NaN, NaN])
        [[Val 0], [Val 1], [Val 2]] [[Val 10], [Val 11], [Val 12]]) fp0 (S ''x'')
       = Some (dset_x [[Val 0], [Val 1], [Val 2]])
   \<and> wf_dset (dset_x [[Val 0], [Val 1], [Val 2]])
   \<and> new_dlen (vec [NaN, NaN, NaN, NaN, NaN]) = 0
   \<and> (\<exists>d'. stored (snd (write_array ds0 False (S ''x'')
          (written opened (mem [NaN, NaN, NaN, NaN, NaN] [NaN, NaN, NaN, NaN, NaN])
             [[Val 0], [Val 1], [Val 2]] [[Val 10], [Val 11], [Val 12]]))) fp0 (S ''x'')
            = Some d'
          \<and> length (rows d') = 0)
   \<and> hdf5_write ds0 False
     (written opened (mem [Val 0, Val 1, Val 2, Val 3, NaN] [Val 10, Val 11, Val 12, Val 13, NaN])
        [[Val 0], [Val 1], [Val 2]] [[Val 10], [Val 11], [Val 12]]) =
     (Some ValueError,
      written opened (mem [Val 0, Val 1, Val 2, Val 3, NaN] [Val 10, Val 11, Val 12, Val 13, NaN])
        [[Val 0], [Val 1], [Val 2], [Val 0]] [[Val 10], [Val 11], [Val 12]])
   \<and> (\<exists>d'. stored (written opened
          (mem [Val 0, Val 1, Val 2, Val 3, NaN] [Val 10, Val 11, Val 12, Val 13, NaN])
          [[Val 0], [Val 1], [Val 2], [Val 0]] [[Val 10], [Val 11], [Val 12]]) fp0 (S ''x'')
            = Some d'
          \<and> ncols d' = ncols (dset_x [[Val 0], [Val 1], [Val 2]])
          \<and> 3 \<le> length (rows d')
          \<and> take 3 (rows d') = [[Val 0], [Val 1], [Val 2]])"
proof -
  define W where "W = written opened (mem [NaN, NaN, NaN, NaN, NaN] [NaN, NaN, NaN, NaN, NaN])
      [[Val 0], [Val 1], [Val 2]] [[Val 10], [Val 11], [Val 12]]"
  define x where "x = arr_x\<lparr>ndarray := vec [NaN, NaN, NaN, NaN, NaN]\<rparr>"
  have wf: "wf_dset (dset_x [[Val 0], [Val 1], [Val 2]])"
    by (simp add: wf_dset_def dset_x_def)
  have ag: "arr_group (self W) = Some fp0"
    by (simp add: W_def written_def opened_def)
  have st: "stored W fp0 (S ''x'') = Some (dset_x [[Val 0], [Val 1], [Val 2]])"
    unfolding W_def by (rule stored_written(1))
  have bx: "bind_err (lookup (arrays ds0) (S ''x'')) (deref W) = Inr x"
    by (simp add: bind_err_def lookup_def deref_def ds0_def W_def written_def mem_def S_simps
        x_def)
  have n0: "new_dlen (ndarray x) = 0" "new_dlen (vec [NaN, NaN, NaN, NaN, NaN]) = 0"
    by (simp_all add: x_def new_dlen_def vec_def)
  have fits: "fits_max (new_dlen (ndarray x)) (fst (maxshape (dset_x [[Val 0], [Val 1], [Val 2]])))"
    "fits_max (ncols (dset_x [[Val 0], [Val 1], [Val 2]]))
       (snd (maxshape (dset_x [[Val 0], [Val 1], [Val 2]])))"
    by (simp_all add: fits_max_def dset_x_def)
  have pop: "populated ds0
      (written opened (mem [Val 0, Val 1, Val 2, Val 3, NaN] [Val 10, Val 11, Val 12, Val 13, NaN])
         [[Val 0], [Val 1], [Val 2]] [[Val 10], [Val 11], [Val 12]]) (S ''x'') = 4"
    by (simp add: populated_def bind_err_def lookup_def deref_def ds0_def written_def mem_def
        new_dlen_def vec_def S_simps)
  have len: "length (rows (dset_x [[Val 0], [Val 1], [Val 2]])) = 3"
    "rows (dset_x [[Val 0], [Val 1], [Val 2]]) = [[Val 0], [Val 1], [Val 2]]"
    by (simp_all add: dset_x_def)
  note t = write_keeps_persisted_rows [of W fp0 "S ''x''" "dset_x [[Val 0], [Val 1], [Val 2]]"
      ds0 x False
      "written opened (mem [Val 0, Val 1, Val 2, Val 3, NaN] [Val 10, Val 11, Val 12, Val 13, NaN])
         [[Val 0], [Val 1], [Val 2]] [[Val 10], [Val 11], [Val 12]]"
      "Some ValueError"
      "written opened (mem [Val 0, Val 1, Val 2, Val 3, NaN] [Val 10, Val 11, Val 12, Val 13, NaN])
         [[Val 0], [Val 1], [Val 2], [Val 0]] [[Val 10], [Val 11], [Val 12]]"
      fp0 "S ''x''" "dset_x [[Val 0], [Val 1], [Val 2]]"]
  from t ag st wf bx fits
  have p1: "\<exists>d'. stored (snd (write_array ds0 False (S ''x'') W)) fp0 (S ''x'') = Some d'
      \<and> length (rows d') = 0"
    unfolding n0 by blast
  from t second_write stored_written(1) wf
  have p2: "\<exists>d'. stored (written opened
          (mem [Val 0, Val 1, Val 2, Val 3, NaN] [Val 10, Val 11, Val 12, Val 13, NaN])
          [[Val 0], [Val 1], [Val 2], [Val 0]] [[Val 10], [Val 11], [Val 12]]) fp0 (S ''x'')
            = Some d'
          \<and> ncols d' = ncols (dset_x [[Val 0], [Val 1], [Val 2]])
          \<and> 3 \<le> length (rows d')
          \<and> take 3 (rows d') = [[Val 0], [Val 1], [Val 2]]"
    unfolding pop len by (auto simp: dset_x_def)
  from p1 p2 ag st wf n0(2) second_write show ?thesis
    unfolding W_def by blast
qed

theorem write_truncates_counterexample:
  "hdf5_write ds0 False
     (written opened (mem [NaN, NaN, NaN, NaN, NaN] [NaN, NaN, NaN, NaN, NaN])
        [[Val 0], [Val 1], [Val 2]] [[Val 10], [Val 11], [Val 12]]) =
     (None, written opened (mem [NaN, NaN, NaN, NaN, NaN] [NaN, NaN, NaN, NaN, NaN]) [] [])
   \<and> new_dlen (vec [NaN, NaN, NaN, NaN, NaN]) = 0
   \<and> map_option (\<lambda>d. length (rows d))
        (stored (written opened (mem [NaN, NaN, NaN, NaN, NaN] [NaN, NaN, NaN, NaN, NaN])
           [[Val 0], [Val 1], [Val 2]] [[Val 10], [Val 11], [Val 12]]) fp0 (S ''x'')) = Some 3
   \<and> map_option (\<lambda>d. length (rows d))
        (stored (written opened (mem [NaN, NaN, NaN, NaN, NaN] [NaN, NaN, NaN, NaN, NaN])
           [] []) fp0 (S ''x'')) = Some 0"
  using reset_write by (simp add: stored_written new_dlen_def vec_def dset_x_def)

text \<open>
  C4 (the code departs from the claim). A formatter just constructed, on a container that
  already has the section \<open>'Data Arrays'\<close>: \<open>write\<close> opens the file, finds the section, does
  not assign \<open>self.arr_group\<close>, and raises \<open>AttributeError\<close> at the first array. Nothing
  is appended.
\<close>

theorem reopened_section_raises:
  "hdf5_write ds0 False
     (written fresh (mem [Val 0, Val 1, Val 2, Val 3, NaN] [Val 10, Val 11, Val 12, Val 13, NaN])
        [[Val 0], [Val 1], [Val 2]] [[Val 10], [Val 11], [Val 12]]) =
     (Some AttributeError,
      written (fresh\<lparr>data_object := Some fp0, filepath := Some fp0\<rparr>)
        (mem [Val 0, Val 1, Val 2, Val 3, NaN] [Val 10, Val 11, Val 12, Val 13, NaN])
        [[Val 0], [Val 1], [Val 2]] [[Val 10], [Val 11], [Val 12]])"
  using reopened_write by simp

lemma filter_prefix_NaN:
  "NaN \<notin> set p \<Longrightarrow> filter (\<lambda>c. c \<noteq> NaN) (p @ replicate n NaN) = p"
  by (induction p) auto

lemma takeWhile_prefix_NaN:
  "NaN \<notin> set p \<Longrightarrow> takeWhile (\<lambda>c. c \<noteq> NaN) (p @ replicate n NaN) = p"
  by (induction p) (auto simp: takeWhile_eq_Nil_iff)

lemma length_takeWhile_filter: "length (takeWhile P xs) \<le> length (filter P xs)"
  by (induction xs) auto

text \<open>
  C3 (as amended). The number of rows \<open>write\<close> gives a table, \<open>new_length\<close>, is the number
  of samples of the whole in-memory array that are not NaN, at any position and in any
  dimension. For a one-dimensional array it is at least the length of the longest prefix
  without NaN, and equal to it when every NaN is trailing; the first \<open>new_length\<close> samples
  are then that prefix. For a one-dimensional array and an empty table of exactly one
  column with an unlimited row dimension, the resize-and-assign step of the loop body
  stores the first \<open>new_length\<close> samples, one per row, each converted to the storage type
  of the table.
\<close>

theorem populated_count:
  "new_dlen x = length (filter (\<lambda>c. c \<noteq> NaN) (elems x))
   \<and> length (takeWhile (\<lambda>c. c \<noteq> NaN) ys) \<le> new_dlen (vec ys)
   \<and> (NaN \<notin> set p \<longrightarrow>
        new_dlen (vec (p @ replicate n NaN)) = length p
        \<and> takeWhile (\<lambda>c. c \<noteq> NaN) (p @ replicate n NaN) = p
        \<and> take (new_dlen (vec (p @ replicate n NaN))) (p @ replicate n NaN) = p)
   \<and> (get_group s g = Inr grp \<and> map_of grp aid = Some d
        \<and> rows d = [] \<and> ncols d = 1 \<and> maxshape d = (None, Some 1)
        \<and> bind_err (lookup (arrays ds) aid) (deref s) = Inr y \<and> ndarray y = vec zs \<longrightarrow>
        (\<exists>s'. append_rows ds aid g s = (None, s')
           \<and> map_option rows (stored s' g aid)
               = Some (map (\<lambda>c. [to_float32 s c]) (take (new_dlen (vec zs)) zs))))"
proof -
  have a: "new_dlen x = length (filter (\<lambda>c. c \<noteq> NaN) (elems x))"
    by (simp add: new_dlen_def)
  have b: "length (takeWhile (\<lambda>c. c \<noteq> NaN) ys) \<le> new_dlen (vec ys)"
    unfolding new_dlen_vec by (rule length_takeWhile_filter)
  have c: "new_dlen (vec (p @ replicate n NaN)) = length p
        \<and> takeWhile (\<lambda>c. c \<noteq> NaN) (p @ replicate n NaN) = p
        \<and> take (new_dlen (vec (p @ replicate n NaN))) (p @ replicate n NaN) = p"
    if "NaN \<notin> set p"
  proof -
    have "new_dlen (vec (p @ replicate n NaN)) = length p"
      unfolding new_dlen_vec filter_prefix_NaN [OF that] ..
    then show ?thesis
      by (simp add: takeWhile_prefix_NaN [OF that])
  qed
  have d: "\<exists>s'. append_rows ds aid g s = (None, s')
           \<and> map_option rows (stored s' g aid)
               = Some (map (\<lambda>c. [to_float32 s c]) (take (new_dlen (vec zs)) zs))"
    if "get_group s g = Inr grp" "map_of grp aid = Some d"
      "rows d = []" "ncols d = 1" "maxshape d = (None, Some 1)"
      "bind_err (lookup (arrays ds) aid) (deref s) = Inr y" "ndarray y = vec zs"
    using append_rows_first [OF that(1,2,6,7,3,4,5)] by auto
  from a b c d show ?thesis by blast
qed

theorem populated_count_witness:
  "NaN \<notin> set [Val 1, Val 2]
   \<and> new_dlen (vec ([Val 1, Val 2] @ replicate 1 NaN)) = 2
   \<and> get_group (state_w w_vec [(S ''x'', dset_x [])]) fp0 = Inr [(S ''x'', dset_x [])]
   \<and> map_of [(S ''x'', dset_x [])] (S ''x'') = Some (dset_x [])
   \<and> bind_err (lookup [(S ''x'', 0)] (S ''x'')) (deref (state_w w_vec [(S ''x'', dset_x [])]))
        = Inr (arr_w w_vec)
   \<and> ndarray (arr_w w_vec) = vec [Val 1, Val 2, NaN]
   \<and> (\<exists>s'. append_rows (ds_w\<lparr>arrays := [(S ''x'', 0)]\<rparr>) (S ''x'') fp0
               (state_w w_vec [(S ''x'', dset_x [])]) = (None, s')
          \<and> map_option rows (stored s' fp0 (S ''x'')) = Some [[Val 1], [Val 2]])"
proof -
  have n: "NaN \<notin> set [Val 1, Val 2]" by simp
  have g: "get_group (state_w w_vec [(S ''x'', dset_x [])]) fp0 = Inr [(S ''x'', dset_x [])]"
    by (simp add: get_group_def state_w_def)
  have m: "map_of [(S ''x'', dset_x [])] (S ''x'') = Some (dset_x [])" by simp
  have e: "rows (dset_x []) = []" "ncols (dset_x []) = 1" "maxshape (dset_x []) = (None, Some 1)"
    by (simp_all add: dset_x_def)
  have x: "bind_err (lookup (arrays (ds_w\<lparr>arrays := [(S ''x'', 0)]\<rparr>)) (S ''x''))
      (deref (state_w w_vec [(S ''x'', dset_x [])])) = Inr (arr_w w_vec)"
    by (simp add: bind_err_def lookup_def deref_def state_w_def)
  have nd: "ndarray (arr_w w_vec) = vec [Val 1, Val 2, NaN]"
    by (simp add: arr_w_def w_vec_def)
  have v: "take (new_dlen (vec [Val 1, Val 2, NaN])) [Val 1, Val 2, NaN] = [Val 1, Val 2]"
    "new_dlen (vec ([Val 1, Val 2] @ replicate 1 NaN)) = 2"
    by (simp_all add: new_dlen_def vec_def)
  have c: "to_float32 (state_w w_vec [(S ''x'', dset_x [])]) = exact"
    by (simp add: state_w_def)
  from populated_count [of "vec [Val 1, Val 2]" "[Val 1, Val 2]" "[Val 1, Val 2]" 1
      "state_w w_vec [(S ''x'', dset_x [])]" fp0 "[(S ''x'', dset_x [])]" "S ''x''" "dset_x []"
      "ds_w\<lparr>arrays := [(S ''x'', 0)]\<rparr>" "arr_w w_vec" "[Val 1, Val 2, NaN]"]
  show ?thesis
    using n g m e x nd v by (simp add: c exact_def)
qed

theorem populated_prefix_counterexample:
  "new_dlen (vec [Val 1, NaN, Val 3]) = 2
   \<and> length (takeWhile (\<lambda>c. c \<noteq> NaN) [Val 1, NaN, Val 3]) = 1
   \<and> hdf5_write ds0 False (start [Val 1, NaN, Val 3] [NaN, NaN, NaN]) =
       (None, written opened (mem [Val 1, NaN, Val 3] [NaN, NaN, NaN]) [[Val 1], [NaN]] [])
   \<and> map_option rows
        (stored (written opened (mem [Val 1, NaN, Val 3] [NaN, NaN, NaN]) [[Val 1], [NaN]] [])
           fp0 (S ''x'')) = Some [[Val 1], [NaN]]"
  using holes_write by (simp add: new_dlen_def vec_def stored_written dset_x_def)



section \<open>The flag \<open>is_setpoint\<close>\<close>

lemma S_True: "S ''True'' = [84, 114, 117, 101]"
  by (simp add: S_def)

lemma S_False: "S ''False'' = [70, 97, 108, 115, 101]"
  by (simp add: S_def)



lemma dec_True: "utf8_decode ''True'' = Inr (S ''True'')"
  by (simp add: S_def utf8_decode_cp_def)

lemma dec_False: "utf8_decode ''False'' = Inr (S ''False'')"
  by (simp add: S_def utf8_decode_cp_def)





section \<open>The snapshot of the instruments\<close>

text \<open>
  C9 (the code departs from the claim). With the names the module binds,
  \<open>save_instrument_snapshot\<close> raises \<open>NameError\<close> at its first statement, whatever the
  snapshot and the state are: \<open>data_object\<close> is written without \<open>self.\<close>. Nothing is
  written.
\<close>

theorem save_instrument_snapshot_raises:
  "save_instrument_snapshot hdf5_format_globals snapshot s = (Some NameError, s)"
  by (simp add: save_instrument_snapshot_def hdf5_format_globals_def)
section \<open>Reading one entry\<close>

lemma opt_attr_None: "map_of (attrs d) k = None \<Longrightarrow> opt_attr d k = Inr None"
  by (simp add: opt_attr_def)

lemma opt_attr_decodes: "decodes d k \<Longrightarrow> \<exists>t. opt_attr d k = Inr t"
  by (auto simp: decodes_def opt_attr_def py_decode_def bind_err_def
      simp del: utf8_decode.simps split: option.splits pyval.splits sum.splits)

lemma lookup_add_array: "lookup (arrays (add_array ds aid a)) aid = Inr a"
  by (simp add: lookup_def add_array_def update_conv')

lemma read_entry_err: "read_attrs aid d = Inl e \<Longrightarrow> read_entry ds aid d s = (Some e, ds, s)"
  by (simp add: read_entry_def bind_err_def)

lemma read_entry_ok:
  assumes "read_attrs aid d = Inr (lbl, nm, u, sp, sa)" and "first_column d = Inr col"
  shows "read_entry ds aid d s =
     (None, add_array ds aid (next_addr s),
      s\<lparr>heap := (heap s)(next_addr s \<mapsto>
               (new_data_array nm aid lbl u sp col)\<lparr>sa_array_ids := Some sa\<rparr>),
        next_addr := Suc (next_addr s)\<rparr>)"
  by (simp add: read_entry_def assms bind_err_def Let_def lookup_add_array deref_def)

lemma read_attrs_defaults:
  assumes "read_attrs aid d = Inr (lbl, nm, u, sp, sa)"
  shows "map_of (attrs d) ''label'' = None \<Longrightarrow> lbl = None"
    and "map_of (attrs d) ''name'' = None \<Longrightarrow> nm = aid"
    and "map_of (attrs d) ''units'' = None \<Longrightarrow> u = None"
proof -
  from assms obtain l n u' where l: "opt_attr d ''label'' = Inr l"
    and n: "opt_attr d ''name'' = Inr n" and u: "opt_attr d ''units'' = Inr u'"
    and eq: "lbl = l" "nm = (case n of None \<Rightarrow> aid | Some n \<Rightarrow> n)" "u = u'"
    unfolding read_attrs_def bind_err_def
    by (auto split: sum.splits)
  show "map_of (attrs d) ''label'' = None \<Longrightarrow> lbl = None"
    using l eq by (simp add: opt_attr_None)
  show "map_of (attrs d) ''name'' = None \<Longrightarrow> nm = aid"
    using n eq by (simp add: opt_attr_None)
  show "map_of (attrs d) ''units'' = None \<Longrightarrow> u = None"
    using u eq by (simp add: opt_attr_None)
qed

lemma read_attrs_no_flag:
  assumes "decodes d ''label''" "decodes d ''name''" "decodes d ''units''"
    and "map_of (attrs d) ''is_setpoint'' = None"
  shows "read_attrs aid d = Inl KeyError"
proof -
  from assms(1-3) [THEN opt_attr_decodes] obtain l n u where
    "opt_attr d ''label'' = Inr l" "opt_attr d ''name'' = Inr n" "opt_attr d ''units'' = Inr u"
    by blast
  then show ?thesis
    by (simp add: read_attrs_def bind_err_def lookup_def assms(4))
qed

lemma read_attrs_no_set_arrays:
  assumes "decodes d ''label''" "decodes d ''name''" "decodes d ''units''"
    and "map_of (attrs d) ''is_setpoint'' = Some (PBytes ''False'')"
    and "map_of (attrs d) ''set_arrays'' = None"
  shows "read_attrs aid d = Inl KeyError"
proof -
  from assms(1-3) [THEN opt_attr_decodes] obtain l n u where
    "opt_attr d ''label'' = Inr l" "opt_attr d ''name'' = Inr n" "opt_attr d ''units'' = Inr u"
    by blast
  moreover have "bind_err (bind_err (lookup (attrs d) ''is_setpoint'') py_decode) str_to_bool
      = Inr False"
    by (simp add: bind_err_def lookup_def assms(4) py_decode_def dec_False str_to_bool_def
        S_True S_False del: utf8_decode.simps)
  ultimately show ?thesis
    by (simp add: read_attrs_def bind_err_def lookup_def assms(5))
qed

lemma read_attrs_bare:
  assumes "map_of (attrs d) ''label'' = None" "map_of (attrs d) ''name'' = None"
    "map_of (attrs d) ''units'' = None"
    and "map_of (attrs d) ''is_setpoint'' = Some (PBytes ''True'')"
  shows "read_attrs aid d = Inr (None, aid, None, True, [])"
proof -
  have "bind_err (bind_err (lookup (attrs d) ''is_setpoint'') py_decode) str_to_bool
      = Inr True"
    by (simp add: bind_err_def lookup_def assms(4) py_decode_def dec_True str_to_bool_def
        del: utf8_decode.simps)
  then show ?thesis
    by (simp add: read_attrs_def opt_attr_None assms(1-3) bind_err_def)
qed

lemma read_first_entry_err:
  assumes "files s (location ds) = Some f" "data_arrays f = Some grp"
    "h5_keys grp = aid # rest" "map_of grp aid = Some d" "read_attrs aid d = Inl e"
  shows "fst (read ds s) = Some e"
  by (simp add: read_def Let_def assms lookup_def read_entry_err)
section \<open>Claims about \<open>read\<close>\<close>

text \<open>
  C10 (as amended). For a stored entry, \<open>read\<close> substitutes defaults for the optional
  attributes that are absent: label \<open>None\<close>, the array id for the name, units \<open>None\<close>; an
  entry that has none of the three and the flag \<open>True\<close> is read without error, and the
  array built from what was read carries those values. Provided each of the three
  optional attributes is absent or a byte string of valid UTF-8, \<open>read\<close> raises \<open>KeyError\<close>
  when \<open>is_setpoint\<close> is missing, and when \<open>set_arrays\<close> is missing on an entry whose
  \<open>is_setpoint\<close> is the token \<open>False\<close>; the error of an entry ends the loop, and that of the
  first entry is the result of \<open>read\<close>.
\<close>

theorem read_attribute_tolerance:
  "(read_attrs aid d = Inr (lbl, nm, u, sp, sa) \<longrightarrow>
      (map_of (attrs d) ''label'' = None \<longrightarrow> lbl = None)
      \<and> (map_of (attrs d) ''name'' = None \<longrightarrow> nm = aid)
      \<and> (map_of (attrs d) ''units'' = None \<longrightarrow> u = None))
   \<and> (map_of (attrs d) ''label'' = None \<and> map_of (attrs d) ''name'' = None
      \<and> map_of (attrs d) ''units'' = None
      \<and> map_of (attrs d) ''is_setpoint'' = Some (PBytes ''True'') \<longrightarrow>
      read_attrs aid d = Inr (None, aid, None, True, []))
   \<and> (read_attrs aid d = Inr (lbl, nm, u, sp, sa) \<and> first_column d = Inr col \<longrightarrow>
      read_entry ds aid d s =
        (None, add_array ds aid (next_addr s),
         s\<lparr>heap := (heap s)(next_addr s \<mapsto>
                  \<lparr>array_id = aid, name = Some nm, label = lbl, units = map_option UStr u,
                   is_setpoint = sp, set_arrays = [], ndarray = vec col,
                   sa_array_ids = Some sa\<rparr>),
           next_addr := Suc (next_addr s)\<rparr>))
   \<and> (decodes d ''label'' \<and> decodes d ''name'' \<and> decodes d ''units''
      \<and> map_of (attrs d) ''is_setpoint'' = None \<longrightarrow>
      read_attrs aid d = Inl KeyError)
   \<and> (decodes d ''label'' \<and> decodes d ''name'' \<and> decodes d ''units''
      \<and> map_of (attrs d) ''is_setpoint'' = Some (PBytes ''False'')
      \<and> map_of (attrs d) ''set_arrays'' = None \<longrightarrow>
      read_attrs aid d = Inl KeyError)
   \<and> (read_attrs aid d = Inl e \<longrightarrow> read_entry ds aid d s = (Some e, ds, s))
   \<and> (files s (location ds) = Some f \<and> data_arrays f = Some grp \<and> h5_keys grp = aid # rest
      \<and> map_of grp aid = Some d \<and> read_attrs aid d = Inl e \<longrightarrow>
      fst (read ds s) = Some e)"
proof -
  have a: "(map_of (attrs d) ''label'' = None \<longrightarrow> lbl = None)
      \<and> (map_of (attrs d) ''name'' = None \<longrightarrow> nm = aid)
      \<and> (map_of (attrs d) ''units'' = None \<longrightarrow> u = None)"
    if "read_attrs aid d = Inr (lbl, nm, u, sp, sa)"
    using read_attrs_defaults [OF that] by blast
  have b: "read_attrs aid d = Inr (None, aid, None, True, [])"
    if "map_of (attrs d) ''label'' = None" "map_of (attrs d) ''name'' = None"
      "map_of (attrs d) ''units'' = None"
      "map_of (attrs d) ''is_setpoint'' = Some (PBytes ''True'')"
    using that by (rule read_attrs_bare)
  have c: "read_entry ds aid d s =
        (None, add_array ds aid (next_addr s),
         s\<lparr>heap := (heap s)(next_addr s \<mapsto>
                  \<lparr>array_id = aid, name = Some nm, label = lbl, units = map_option UStr u,
                   is_setpoint = sp, set_arrays = [], ndarray = vec col,
                   sa_array_ids = Some sa\<rparr>),
           next_addr := Suc (next_addr s)\<rparr>)"
    if "read_attrs aid d = Inr (lbl, nm, u, sp, sa)" "first_column d = Inr col"
    using read_entry_ok [OF that] by (simp add: new_data_array_def)
  have k1: "read_attrs aid d = Inl KeyError"
    if "decodes d ''label''" "decodes d ''name''" "decodes d ''units''"
      "map_of (attrs d) ''is_setpoint'' = None"
    using that by (rule read_attrs_no_flag)
  have k2: "read_attrs aid d = Inl KeyError"
    if "decodes d ''label''" "decodes d ''name''" "decodes d ''units''"
      "map_of (attrs d) ''is_setpoint'' = Some (PBytes ''False'')"
      "map_of (attrs d) ''set_arrays'' = None"
    using that by (rule read_attrs_no_set_arrays)
  have e1: "read_entry ds aid d s = (Some e, ds, s)" if "read_attrs aid d = Inl e"
    using that by (rule read_entry_err)
  have e2: "fst (read ds s) = Some e"
    if "files s (location ds) = Some f" "data_arrays f = Some grp" "h5_keys grp = aid # rest"
      "map_of grp aid = Some d" "read_attrs aid d = Inl e"
    using that by (rule read_first_entry_err)
  from a b c k1 k2 e1 e2 show ?thesis by blast
qed

theorem read_attribute_tolerance_witness:
  "read_attrs (S ''w'') (entry [(''is_setpoint'', PBytes ''True'')])
     = Inr (None, S ''w'', None, True, [])
   \<and> first_column (entry [(''is_setpoint'', PBytes ''True'')]) = Inr [Val 1, Val 2]
   \<and> read_entry ds_r (S ''w'') (entry [(''is_setpoint'', PBytes ''True'')]) (state_w w_vec []) =
        (None, add_array ds_r (S ''w'') 1,
         (state_w w_vec [])\<lparr>heap := (heap (state_w w_vec []))(1 \<mapsto>
                  \<lparr>array_id = S ''w'', name = Some (S ''w''), label = None, units = None,
                   is_setpoint = True, set_arrays = [], ndarray = vec [Val 1, Val 2],
                   sa_array_ids = Some []\<rparr>),
           next_addr := 2\<rparr>)
   \<and> decodes (entry []) ''label'' \<and> decodes (entry []) ''name'' \<and> decodes (entry []) ''units''
   \<and> read_attrs (S ''w'') (entry []) = Inl KeyError
   \<and> read_attrs (S ''w'') (entry [(''is_setpoint'', PBytes ''False'')]) = Inl KeyError
   \<and> read_entry ds_r (S ''w'') (entry []) (state_w w_vec [(S ''w'', entry [])])
       = (Some KeyError, ds_r, state_w w_vec [(S ''w'', entry [])])
   \<and> fst (read ds_r (state_w w_vec [(S ''w'', entry [])])) = Some KeyError"
proof -
  define dT where "dT = entry [(''is_setpoint'', PBytes ''True'')]"
  define dF where "dF = entry [(''is_setpoint'', PBytes ''False'')]"
  have mT: "map_of (attrs dT) ''label'' = None" "map_of (attrs dT) ''name'' = None"
    "map_of (attrs dT) ''units'' = None" "map_of (attrs dT) ''is_setpoint'' = Some (PBytes ''True'')"
    by (simp_all add: dT_def entry_def)
  have col: "first_column dT = Inr [Val 1, Val 2]"
    by (simp add: dT_def entry_def first_column_def)
  have dec: "decodes (entry []) ''label''" "decodes (entry []) ''name''"
    "decodes (entry []) ''units''" "decodes dF ''label''" "decodes dF ''name''"
    "decodes dF ''units''"
    by (simp_all add: decodes_def entry_def dF_def)
  have m0: "map_of (attrs (entry [])) ''is_setpoint'' = None"
    by (simp add: entry_def)
  have mF: "map_of (attrs dF) ''is_setpoint'' = Some (PBytes ''False'')"
    "map_of (attrs dF) ''set_arrays'' = None"
    by (simp_all add: dF_def entry_def)
  have na: "next_addr (state_w w_vec []) = 1"
    by (simp add: state_w_def)
  have fl: "files (state_w w_vec [(S ''w'', entry [])]) (location ds_r)
      = Some \<lparr>data_arrays = Some [(S ''w'', entry [])], meta_data = None\<rparr>"
    by (simp add: state_w_def ds_r_def)
  have ks: "h5_keys [(S ''w'', entry [])] = [S ''w'']"
    by (simp add: h5_keys_def)
  note t1 = read_attribute_tolerance [of "S ''w''" dT None "S ''w''" None True "[]"
      "[Val 1, Val 2]" ds_r "state_w w_vec []"]
  from t1 mT have rT: "read_attrs (S ''w'') dT = Inr (None, S ''w'', None, True, [])"
    by blast
  from t1 rT col have eT: "read_entry ds_r (S ''w'') dT (state_w w_vec []) =
        (None, add_array ds_r (S ''w'') 1,
         (state_w w_vec [])\<lparr>heap := (heap (state_w w_vec []))(1 \<mapsto>
                  \<lparr>array_id = S ''w'', name = Some (S ''w''), label = None, units = None,
                   is_setpoint = True, set_arrays = [], ndarray = vec [Val 1, Val 2],
                   sa_array_ids = Some []\<rparr>),
           next_addr := 2\<rparr>)"
    by (simp add: na)
  note t2 = read_attribute_tolerance [of "S ''w''" "entry []" None "S ''w''" None True "[]"
      "[]" ds_r "state_w w_vec [(S ''w'', entry [])]" KeyError
      "\<lparr>data_arrays = Some [(S ''w'', entry [])], meta_data = None\<rparr>"
      "[(S ''w'', entry [])]" "[]"]
  from t2 dec(1-3) m0 have r0: "read_attrs (S ''w'') (entry []) = Inl KeyError"
    by blast
  from t2 r0 have e0: "read_entry ds_r (S ''w'') (entry []) (state_w w_vec [(S ''w'', entry [])])
       = (Some KeyError, ds_r, state_w w_vec [(S ''w'', entry [])])"
    by blast
  from t2 r0 fl ks have rd: "fst (read ds_r (state_w w_vec [(S ''w'', entry [])])) = Some KeyError"
    by simp
  note t3 = read_attribute_tolerance [of "S ''w''" dF None "S ''w''" None True "[]"
      "[]" ds_r "state_w w_vec []"]
  from t3 dec(4-6) mF have rF: "read_attrs (S ''w'') dF = Inl KeyError"
    by blast
  from rT col eT dec(1-3) r0 rF e0 rd show ?thesis
    unfolding dT_def dF_def by blast
qed

theorem read_attribute_tolerance_counterexample:
  "map_of (attrs (entry [(''label'', PInt 5)])) ''is_setpoint'' = None
   \<and> read_attrs (S ''w'') (entry [(''label'', PInt 5)]) = Inl AttributeError
   \<and> fst (read ds_r (state_w w_vec [(S ''w'', entry [(''label'', PInt 5)])]))
       = Some AttributeError"
  by (simp add: entry_def read_attrs_def opt_attr_def py_decode_def bind_err_def read_def
      ds_r_def state_w_def h5_keys_def lookup_def read_entry_def Let_def)

end
